theory Spec2Isabelle
  imports Main "HOL-Library.AList"
begin

section \<open>Data model of the annotation slicer\<close>

text \<open>
  The development embeds \<^verbatim>\<open>helixerprep/datas/annotations/slicer.py\<close>. Python integers
  are unbounded, so every position is an \<open>int\<close>. The record fields keep the attribute
  names of the source; \<open>start\<close>, \<open>end\<close> and \<open>id\<close> carry a prefix, since \<open>end\<close> is a
  keyword and the two classes share the names.
\<close>

text \<open>A coordinate row (\<^verbatim>\<open>geenuff.orm.Coordinate\<close>): the window of a slice.\<close>

record coordinates =
  c_id :: nat
  seqid :: string
  c_start :: int
  c_end :: int

text \<open>
  A feature row with the attributes the slicer reads or writes. The source reads
  \<^verbatim>\<open>start\<close>/\<^verbatim>\<open>end\<close> in the classifier and \<^verbatim>\<open>position\<close> in the interval tree and in the
  re-check of \<^verbatim>\<open>modify4slice\<close>; it reads \<^verbatim>\<open>transcribed_piece\<close> once and
  \<^verbatim>\<open>transcribed_pieces\<close> elsewhere. They are kept apart, as the source has them. The
  source writes \<^verbatim>\<open>coordinate\<close> on the row and \<^verbatim>\<open>coordinates\<close> on its handler for the one
  attribute \<open>coordinate\<close>. Pieces are referred to by their handle (a natural number).
\<close>

record feature =
  given_id :: "string option"
  f_start :: int
  f_end :: int
  position :: int
  is_plus_strand :: bool
  coordinate :: coordinates
  transcribed_piece :: nat
  transcribed_pieces :: "nat list"
  start_is_biological_start :: bool
  end_is_biological_end :: bool

section \<open>FeatureVsCoords: the position classifier\<close>

text \<open>The object built by \<^verbatim>\<open>FeatureVsCoords.__init__\<close>, with its precalculated fields.\<close>

record FeatureVsCoords =
  fvc_feature :: feature
  slice_coordinates :: coordinates
  fvc_is_plus_strand :: bool
  sign :: int
  feature_py_start :: int
  feature_py_end :: int

definition mk_FeatureVsCoords :: "feature \<Rightarrow> coordinates \<Rightarrow> bool \<Rightarrow> FeatureVsCoords" where
  "mk_FeatureVsCoords f sc is_plus =
     \<lparr> fvc_feature = f,
       slice_coordinates = sc,
       fvc_is_plus_strand = is_plus,
       sign = (if is_plus then 1 else - 1),
       feature_py_start = (if is_plus then f_start f else f_end f + 1),
       feature_py_end = (if is_plus then f_end f else f_start f + 1) \<rparr>"

definition is_detached :: "FeatureVsCoords \<Rightarrow> bool" where
  "is_detached v =
     (if seqid (slice_coordinates v) \<noteq> seqid (coordinate (fvc_feature v)) then True
      else if fvc_is_plus_strand v \<noteq> is_plus_strand (fvc_feature v) then True
      else False)"

definition is_lower :: "FeatureVsCoords \<Rightarrow> bool" where
  "is_lower v = (c_start (slice_coordinates v) - feature_py_end v \<ge> 0)"

definition is_higher :: "FeatureVsCoords \<Rightarrow> bool" where
  "is_higher v = (feature_py_start v - c_end (slice_coordinates v) \<ge> 0)"

definition is_upstream :: "FeatureVsCoords \<Rightarrow> bool" where
  "is_upstream v = (if fvc_is_plus_strand v then is_lower v else is_higher v)"

definition is_downstream :: "FeatureVsCoords \<Rightarrow> bool" where
  "is_downstream v = (if fvc_is_plus_strand v then is_higher v else is_lower v)"

definition is_contained :: "FeatureVsCoords \<Rightarrow> bool" where
  "is_contained v =
     (let start_contained = (c_start (slice_coordinates v) \<le> feature_py_start v
                             \<and> feature_py_start v < c_end (slice_coordinates v));
          end_contained = (c_start (slice_coordinates v) < feature_py_end v
                           \<and> feature_py_end v \<le> c_end (slice_coordinates v))
      in start_contained \<and> end_contained)"

definition overlaps_lower :: "FeatureVsCoords \<Rightarrow> bool" where
  "overlaps_lower v =
     (feature_py_start v < c_start (slice_coordinates v)
      \<and> c_start (slice_coordinates v) < feature_py_end v)"

definition overlaps_higher :: "FeatureVsCoords \<Rightarrow> bool" where
  "overlaps_higher v =
     (feature_py_start v < c_end (slice_coordinates v)
      \<and> c_end (slice_coordinates v) < feature_py_end v)"

definition overlaps_upstream :: "FeatureVsCoords \<Rightarrow> bool" where
  "overlaps_upstream v = (if fvc_is_plus_strand v then overlaps_lower v else overlaps_higher v)"

definition overlaps_downstream :: "FeatureVsCoords \<Rightarrow> bool" where
  "overlaps_downstream v = (if fvc_is_plus_strand v then overlaps_higher v else overlaps_lower v)"

text \<open>
  The six categories, and the \<^verbatim>\<open>if\<close>/\<^verbatim>\<open>elif\<close> chain of \<^verbatim>\<open>modify4new_slice\<close> that chooses
  among them, in the order of the source. \<open>None\<close> is the final \<^verbatim>\<open>else\<close> branch, which
  raises \<^verbatim>\<open>AssertionError\<close>.
\<close>

datatype category =
  Detached | Upstream | OverlapsUpstream | Contained | OverlapsDownstream | Downstream

definition classify :: "FeatureVsCoords \<Rightarrow> category option" where
  "classify v =
     (if is_detached v then Some Detached
      else if is_upstream v then Some Upstream
      else if overlaps_upstream v then Some OverlapsUpstream
      else if is_contained v then Some Contained
      else if overlaps_downstream v then Some OverlapsDownstream
      else if is_downstream v then Some Downstream
      else None)"

text \<open>The predicate of the source that stands behind each category.\<close>

fun holds :: "category \<Rightarrow> FeatureVsCoords \<Rightarrow> bool" where
  "holds Detached v = is_detached v"
| "holds Upstream v = is_upstream v"
| "holds OverlapsUpstream v = overlaps_upstream v"
| "holds Contained v = is_contained v"
| "holds OverlapsDownstream v = overlaps_downstream v"
| "holds Downstream v = is_downstream v"

text \<open>Sample rows used by the closed theorems below.\<close>

definition mk_coords :: "nat \<Rightarrow> string \<Rightarrow> int \<Rightarrow> int \<Rightarrow> coordinates" where
  "mk_coords i sq s e = \<lparr> c_id = i, seqid = sq, c_start = s, c_end = e \<rparr>"

definition mk_feature :: "int \<Rightarrow> int \<Rightarrow> bool \<Rightarrow> coordinates \<Rightarrow> nat \<Rightarrow> feature" where
  "mk_feature s e is_plus c p =
     \<lparr> given_id = None, f_start = s, f_end = e, position = s, is_plus_strand = is_plus,
       coordinate = c, transcribed_piece = p, transcribed_pieces = [p],
       start_is_biological_start = True, end_is_biological_end = True \<rparr>"

lemmas classifier_defs =
  mk_FeatureVsCoords_def is_detached_def is_lower_def is_higher_def is_upstream_def
  is_downstream_def is_contained_def overlaps_lower_def overlaps_higher_def
  overlaps_upstream_def overlaps_downstream_def

section \<open>The shared state: store, update queue, interval trees\<close>

text \<open>
  Every \<^verbatim>\<open>raise\<close> and failing \<^verbatim>\<open>assert\<close> of the source is an \<open>error\<close>. A Python exception
  leaves the mutations made before it in place, so a result carries the state in both
  cases.
\<close>

datatype error = ValueError | AssertionError | NoFeaturesInSliceError | IndexError

datatype 'a result = Done 'a | Raised error 'a

fun state_of :: "'a result \<Rightarrow> 'a" where
  "state_of (Done s) = s"
| "state_of (Raised e s) = s"

fun raised :: "'a result \<Rightarrow> error option" where
  "raised (Done s) = None"
| "raised (Raised e s) = Some e"

text \<open>A \<^verbatim>\<open>geenuff.orm.TranscribedPiece\<close> row as \<^verbatim>\<open>mk_new_piece\<close> builds it.\<close>

record transcribed_piece_row =
  tp_super_locus :: nat
  tp_transcribed :: nat

text \<open>The two kinds of dictionaries that \<^verbatim>\<open>CoreQueue\<close> buffers.\<close>

record piece_swap =
  piece_id_old :: nat
  piece_id_new :: nat
  ps_feat_id :: nat

record coord_swap =
  cs_feat_id :: nat
  coordinate_id_new :: nat

text \<open>
  An entry of an interval tree is \<open>(begin, end, data)\<close>, with the handle of a feature as
  its data. The trees are a dictionary from sequence id to tree, kept as an association
  list in insertion order.
\<close>

type_synonym interval = "int \<times> int \<times> nat"

text \<open>
  The state that \<^verbatim>\<open>SliceController\<close>, its session and its \<^verbatim>\<open>CoreQueue\<close> hold. Objects are
  shared by reference in the source; here a feature is addressed by a handle into
  \<open>features\<close>, which also serves as its row id, and \<open>n_features\<close> is the next free handle.
  A piece is addressed by its index in \<open>pieces\<close>. The session's objects and the database
  rows are one store: an update statement of the queue changes the feature it names.
\<close>

record slicer =
  features :: "nat \<Rightarrow> feature"
  n_features :: nat
  pieces :: "transcribed_piece_row list"
  coordinate_rows :: "nat \<Rightarrow> coordinates"
  interval_trees :: "(string \<times> interval list) list"
  piece_swaps :: "piece_swap list"
  coord_swaps :: "coord_swap list"

text \<open>
  The statement \<^verbatim>\<open>piece_swaps_update\<close> applied to one buffered entry: in the association
  of pieces to features, the rows of the feature that name the old piece name the new
  one. The statement \<^verbatim>\<open>coord_swaps_update\<close> applied to one entry: the feature's coordinate
  becomes the row with the new id.
\<close>

definition apply_piece_swap :: "piece_swap \<Rightarrow> (nat \<Rightarrow> feature) \<Rightarrow> (nat \<Rightarrow> feature)" where
  "apply_piece_swap sw fs =
     fs (ps_feat_id sw := (fs (ps_feat_id sw))
          \<lparr> transcribed_pieces :=
              map (\<lambda>p. if p = piece_id_old sw then piece_id_new sw else p)
                  (transcribed_pieces (fs (ps_feat_id sw))) \<rparr>)"

definition apply_coord_swap ::
  "(nat \<Rightarrow> coordinates) \<Rightarrow> coord_swap \<Rightarrow> (nat \<Rightarrow> feature) \<Rightarrow> (nat \<Rightarrow> feature)" where
  "apply_coord_swap rows sw fs =
     fs (cs_feat_id sw := (fs (cs_feat_id sw)) \<lparr> coordinate := rows (coordinate_id_new sw) \<rparr>)"

text \<open>
  \<^verbatim>\<open>CoreQueue.execute_so_far\<close>: each non-empty action list is executed and emptied, the
  piece swaps first.
\<close>

definition execute_so_far :: "'a slicer_scheme \<Rightarrow> 'a slicer_scheme" where
  "execute_so_far s =
     (let s1 = (if piece_swaps s \<noteq> []
                then s \<lparr> features := fold apply_piece_swap (piece_swaps s) (features s),
                         piece_swaps := [] \<rparr>
                else s);
          s2 = (if coord_swaps s1 \<noteq> []
                then s1 \<lparr> features := fold (apply_coord_swap (coordinate_rows s1))
                                             (coord_swaps s1) (features s1),
                          coord_swaps := [] \<rparr>
                else s1)
      in s2)"

text \<open>
  The interval tree of the \<^verbatim>\<open>intervaltree\<close> package, as far as the slicer uses it. Adding
  an interval that is already present changes nothing; \<^verbatim>\<open>tree[start:end]\<close> gives the
  intervals with \<open>begin < end\<close> of the query and \<open>end > start\<close> of the query, and nothing
  for an empty query range. The package returns a set; the list here is in insertion
  order.
\<close>

definition tree_add :: "interval \<Rightarrow> interval list \<Rightarrow> interval list" where
  "tree_add iv tree = (if iv \<in> set tree then tree else tree @ [iv])"

definition tree_overlap :: "interval list \<Rightarrow> int \<Rightarrow> int \<Rightarrow> interval list" where
  "tree_overlap tree b e =
     (if b \<ge> e then [] else filter (\<lambda>iv. fst iv < e \<and> fst (snd iv) > b) tree)"

text \<open>The module-level \<^verbatim>\<open>load_to_intervaltree\<close>, for the feature with handle \<open>h\<close>.\<close>

definition load_to_intervaltree :: "nat \<Rightarrow> 'a slicer_scheme \<Rightarrow> 'a slicer_scheme" where
  "load_to_intervaltree h s =
     (let sq = seqid (coordinate (features s h));
          tree = (case map_of (interval_trees s) sq of None \<Rightarrow> [] | Some t \<Rightarrow> t);
          py_start = position (features s h)
      in s \<lparr> interval_trees :=
               AList.update sq (tree_add (py_start, py_start + 1, h) tree) (interval_trees s) \<rparr>)"

text \<open>
  \<^verbatim>\<open>SliceController.fill_intervaltrees\<close>: every feature of every super locus is loaded;
  \<open>hs\<close> lists their handles in the order of the two nested loops.
\<close>

definition fill_intervaltrees :: "nat list \<Rightarrow> 'a slicer_scheme \<Rightarrow> 'a slicer_scheme" where
  "fill_intervaltrees hs s = fold load_to_intervaltree hs s"

text \<open>\<^verbatim>\<open>SliceController.get_features_from_slice\<close>.\<close>

definition get_features_from_slice ::
  "'a slicer_scheme \<Rightarrow> string \<Rightarrow> int \<Rightarrow> int \<Rightarrow> bool \<Rightarrow> error + nat list" where
  "get_features_from_slice s sq start end_pos is_plus =
     (if interval_trees s = [] then Inl ValueError
      else case map_of (interval_trees s) sq of
             None \<Rightarrow> Inr []
           | Some tree \<Rightarrow>
               Inr (map (\<lambda>iv. snd (snd iv))
                      (filter (\<lambda>iv. is_plus_strand (features s (snd (snd iv))) = is_plus)
                              (tree_overlap tree start end_pos))))"

section \<open>TranscriptTrimmer\<close>

text \<open>
  A trimmer holds references to the session, the queue and the trees, so its record
  extends the shared state with its own attributes: the transcript and super locus it
  was built for, its list of handlers and the attribute \<^verbatim>\<open>_downstream_piece\<close>.
\<close>

record TranscriptTrimmer = slicer +
  transcript :: nat
  super_locus :: nat
  handlers :: "nat list"
  downstream_piece_attr :: "nat option"

text \<open>\<^verbatim>\<open>TranscriptTrimmer.__init__\<close>, and the shared state a trimmer leaves behind.\<close>

definition TranscriptTrimmer_init :: "nat \<Rightarrow> nat \<Rightarrow> slicer \<Rightarrow> TranscriptTrimmer" where
  "TranscriptTrimmer_init tr sl s =
     \<lparr> features = features s, n_features = n_features s, pieces = pieces s,
       coordinate_rows = coordinate_rows s, interval_trees = interval_trees s,
       piece_swaps = piece_swaps s, coord_swaps = coord_swaps s,
       transcript = tr, super_locus = sl, handlers = [], downstream_piece_attr = None \<rparr>"

definition shared_state :: "TranscriptTrimmer \<Rightarrow> slicer" where
  "shared_state t =
     \<lparr> features = features t, n_features = n_features t, pieces = pieces t,
       coordinate_rows = coordinate_rows t, interval_trees = interval_trees t,
       piece_swaps = piece_swaps t, coord_swaps = coord_swaps t \<rparr>"

text \<open>
  \<^verbatim>\<open>mk_new_piece\<close>: a new piece row of the trimmer's transcript is added to the session and
  its handler is kept. The result is the handle of the new piece.
\<close>

definition mk_new_piece :: "TranscriptTrimmer \<Rightarrow> TranscriptTrimmer \<times> nat" where
  "mk_new_piece t =
     (let new_piece = length (pieces t)
      in (t \<lparr> pieces := pieces t @ [\<lparr> tp_super_locus = super_locus t,
                                       tp_transcribed = transcript t \<rparr>],
               handlers := handlers t @ [new_piece] \<rparr>,
          new_piece))"

text \<open>The property \<^verbatim>\<open>downstream_piece\<close>: the piece is made on the first access only.\<close>

definition downstream_piece :: "TranscriptTrimmer \<Rightarrow> TranscriptTrimmer \<times> nat" where
  "downstream_piece t =
     (case downstream_piece_attr t of
        None \<Rightarrow> (let (t1, p) = mk_new_piece t in (t1 \<lparr> downstream_piece_attr := Some p \<rparr>, p))
      | Some p \<Rightarrow> (t, p))"

text \<open>
  \<^verbatim>\<open>new_handled_data\<close>: a new feature object receives all attributes of the template and
  then the keyword arguments, given here as a function on the row. The attributes are
  copied by \<^verbatim>\<open>fax_all_attrs_to_another\<close> of the \<^verbatim>\<open>geenuff\<close> package; the copy includes the
  links to pieces, which \<^verbatim>\<open>swap_piece\<close> then expects on the new feature.
\<close>

definition new_handled_data ::
  "nat \<Rightarrow> (feature \<Rightarrow> feature) \<Rightarrow> TranscriptTrimmer \<Rightarrow> TranscriptTrimmer \<times> nat" where
  "new_handled_data template kwargs t =
     (let h = n_features t
      in (t \<lparr> features := (features t) (h := kwargs (features t template)),
               n_features := Suc h \<rparr>,
          h))"

text \<open>
  \<^verbatim>\<open>swap_piece\<close>: the feature is unlinked from the old piece, which raises \<^verbatim>\<open>ValueError\<close>
  when there is no such link, and linked to the new one.
\<close>

definition swap_piece :: "nat \<Rightarrow> nat \<Rightarrow> nat \<Rightarrow> TranscriptTrimmer \<Rightarrow> TranscriptTrimmer result" where
  "swap_piece feature_handler new_piece old_piece t =
     (if old_piece \<notin> set (transcribed_pieces (features t feature_handler))
      then Raised ValueError t
      else Done (t \<lparr> features := (features t)
                       (feature_handler := (features t feature_handler)
                          \<lparr> transcribed_pieces :=
                              remove1 old_piece (transcribed_pieces (features t feature_handler))
                              @ [new_piece] \<rparr>) \<rparr>))"

text \<open>
  \<^verbatim>\<open>set_status_downstream_border\<close>, with the cut position \<^verbatim>\<open>down_at\<close> as a function of its
  own. The trees are those of the shared state, which is what \<^verbatim>\<open>_slice_annotations_1way\<close>
  passes down.
\<close>

definition down_at :: "coordinates \<Rightarrow> bool \<Rightarrow> int" where
  "down_at new_coords is_plus = (if is_plus then c_end new_coords else c_start new_coords - 1)"

definition set_status_downstream_border ::
  "coordinates \<Rightarrow> coordinates \<Rightarrow> bool \<Rightarrow> nat \<Rightarrow> nat \<Rightarrow> nat \<Rightarrow> TranscriptTrimmer
   \<Rightarrow> TranscriptTrimmer result" where
  "set_status_downstream_border new_coords old_coords is_plus template_feature new_piece old_piece t =
     (if old_piece \<notin> set (transcribed_pieces (features t template_feature))
      then Raised AssertionError t
      else
        let (t1, downstream) =
              new_handled_data template_feature
                (\<lambda>f. f \<lparr> f_start := down_at new_coords is_plus, given_id := None,
                         coordinate := old_coords, start_is_biological_start := False \<rparr>) t;
            t2 = load_to_intervaltree downstream t1;
            t3 = t2 \<lparr> features := (features t2)
                       (template_feature := (features t2 template_feature)
                          \<lparr> f_end := down_at new_coords is_plus,
                            end_is_biological_end := False \<rparr>) \<rparr>
        in swap_piece downstream new_piece old_piece t3)"

text \<open>
  The loops of \<^verbatim>\<open>modify4new_slice\<close>. A step is what the generator
  \<^verbatim>\<open>transition_5p_to_3p\<close> of the \<^verbatim>\<open>geenuff\<close> package yields: the handles of the aligned
  features and the handle of their piece. The generator is not part of this repository;
  the steps it yields are an argument.
\<close>

type_synonym step = "nat list \<times> nat"

text \<open>
  The inner loop of the branch for \<^verbatim>\<open>overlaps_downstream\<close>; the argument
  \<^verbatim>\<open>f0.coordinates\<close> is read anew for each call.
\<close>

fun split_aligned ::
  "coordinates \<Rightarrow> bool \<Rightarrow> nat \<Rightarrow> nat \<Rightarrow> nat \<Rightarrow> nat list \<Rightarrow> TranscriptTrimmer
   \<Rightarrow> TranscriptTrimmer result" where
  "split_aligned new_coords is_plus f0 piece_at_border new_piece_after_border [] t = Done t"
| "split_aligned new_coords is_plus f0 piece_at_border new_piece_after_border (f # fs) t =
     (case set_status_downstream_border new_coords (coordinate (features t f0)) is_plus f
             new_piece_after_border piece_at_border t of
        Raised e t' \<Rightarrow> Raised e t'
      | Done t' \<Rightarrow> split_aligned new_coords is_plus f0 piece_at_border new_piece_after_border fs t')"

text \<open>
  The inner loop of the branch for \<^verbatim>\<open>is_downstream\<close>; each entry reads the property
  \<^verbatim>\<open>downstream_piece\<close>.
\<close>

fun queue_piece_swaps :: "nat \<Rightarrow> nat list \<Rightarrow> TranscriptTrimmer \<Rightarrow> TranscriptTrimmer" where
  "queue_piece_swaps piece_at_border [] t = t"
| "queue_piece_swaps piece_at_border (f # fs) t =
     (let (t1, dp) = downstream_piece t
      in queue_piece_swaps piece_at_border fs
           (t1 \<lparr> piece_swaps := piece_swaps t1
                    @ [\<lparr> piece_id_old = piece_at_border, piece_id_new = dp, ps_feat_id = f \<rparr>] \<rparr>))"

text \<open>The local variables of \<^verbatim>\<open>modify4new_slice\<close> that live across the loop.\<close>

record walk_vars =
  seen_one_overlap :: bool
  piece_at_border :: "nat option"

text \<open>
  One pass through the body of the \<^verbatim>\<open>for\<close> loop. Taking \<^verbatim>\<open>aligned_features[0]\<close> of an
  empty list raises \<^verbatim>\<open>IndexError\<close>.
\<close>

definition trim_step ::
  "coordinates \<Rightarrow> bool \<Rightarrow> step \<Rightarrow> walk_vars \<times> TranscriptTrimmer
   \<Rightarrow> (walk_vars \<times> TranscriptTrimmer) result" where
  "trim_step new_coords is_plus stp st =
     (let aligned_features = fst stp; piece = snd stp; vs = fst st; t = snd st
      in case aligned_features of
           [] \<Rightarrow> Raised IndexError (vs, t)
         | f0 # _ \<Rightarrow>
            (case classify (mk_FeatureVsCoords (features t f0) new_coords is_plus) of
               Some Detached \<Rightarrow> Done (vs, t)
             | Some Upstream \<Rightarrow> Done (vs, t)
             | Some OverlapsUpstream \<Rightarrow> Done (vs, t)
             | Some Contained \<Rightarrow>
                 Done (vs \<lparr> seen_one_overlap := True \<rparr>,
                       t \<lparr> coord_swaps := coord_swaps t
                             @ map (\<lambda>f. \<lparr> cs_feat_id = f, coordinate_id_new = c_id new_coords \<rparr>)
                                   aligned_features \<rparr>)
             | Some OverlapsDownstream \<Rightarrow>
                 (let vs1 = vs \<lparr> seen_one_overlap := True,
                                 piece_at_border := Some (transcribed_piece (features t f0)) \<rparr>;
                      (t1, new_piece_after_border) = downstream_piece t;
                      t2 = execute_so_far t1
                  in case split_aligned new_coords is_plus f0 (transcribed_piece (features t f0))
                            new_piece_after_border aligned_features t2 of
                       Raised e t3 \<Rightarrow> Raised e (vs1, t3)
                     | Done t3 \<Rightarrow> Done (vs1, t3))
             | Some Downstream \<Rightarrow>
                 (case piece_at_border vs of
                    None \<Rightarrow> Done (vs, t)
                  | Some pab \<Rightarrow>
                      if piece = pab then Done (vs, queue_piece_swaps pab aligned_features t)
                      else Done (vs, t))
             | None \<Rightarrow> Raised AssertionError (vs, t)))"

fun walk ::
  "coordinates \<Rightarrow> bool \<Rightarrow> step list \<Rightarrow> walk_vars \<times> TranscriptTrimmer
   \<Rightarrow> (walk_vars \<times> TranscriptTrimmer) result" where
  "walk new_coords is_plus [] st = Done st"
| "walk new_coords is_plus (stp # stps) st =
     (case trim_step new_coords is_plus stp st of
        Raised e st' \<Rightarrow> Raised e st'
      | Done st' \<Rightarrow> walk new_coords is_plus stps st')"

definition modify4new_slice ::
  "coordinates \<Rightarrow> bool \<Rightarrow> step list \<Rightarrow> TranscriptTrimmer \<Rightarrow> TranscriptTrimmer result" where
  "modify4new_slice new_coords is_plus stps t =
     (case walk new_coords is_plus stps
             (\<lparr> seen_one_overlap = False, piece_at_border = None \<rparr>, t) of
        Raised e st \<Rightarrow> Raised e (snd st)
      | Done st \<Rightarrow>
          if \<not> seen_one_overlap (fst st) then Raised NoFeaturesInSliceError (snd st)
          else Done (snd st))"

section \<open>SuperLocusHandler.modify4slice\<close>

text \<open>
  The relationships \<^verbatim>\<open>transcribed.transcribed_pieces\<close> and \<^verbatim>\<open>piece.features\<close>, read off
  the store.
\<close>

definition pieces_of_transcribed :: "'a slicer_scheme \<Rightarrow> nat \<Rightarrow> nat list" where
  "pieces_of_transcribed s tr =
     filter (\<lambda>p. tp_transcribed (pieces s ! p) = tr) [0 ..< length (pieces s)]"

definition features_of_piece :: "'a slicer_scheme \<Rightarrow> nat \<Rightarrow> nat list" where
  "features_of_piece s p =
     filter (\<lambda>h. p \<in> set (transcribed_pieces (features s h))) [0 ..< n_features s]"

text \<open>The condition of the two \<^verbatim>\<open>assert\<close> statements in the handler of the exception.\<close>

definition assert_not_in_slice :: "coordinates \<Rightarrow> bool \<Rightarrow> feature \<Rightarrow> bool" where
  "assert_not_in_slice new_coords is_plus f =
     (if is_plus = is_plus_strand f
      then (if is_plus
            then \<not> (c_start new_coords \<le> position f \<and> position f \<le> c_end new_coords)
            else \<not> (c_start new_coords - 1 \<le> position f \<and> position f \<le> c_end new_coords - 1))
      else True)"

definition double_check :: "coordinates \<Rightarrow> bool \<Rightarrow> nat \<Rightarrow> 'a slicer_scheme \<Rightarrow> error option" where
  "double_check new_coords is_plus tr s =
     (if list_all (\<lambda>p. list_all (\<lambda>h. assert_not_in_slice new_coords is_plus (features s h))
                                (features_of_piece s p))
                  (pieces_of_transcribed s tr)
      then None else Some AssertionError)"

text \<open>
  \<^verbatim>\<open>modify4slice\<close> of the super locus \<open>sl\<close>: one trimmer for each transcript, given with
  the steps that its generator yields. Only \<^verbatim>\<open>NoFeaturesInSliceError\<close> is caught.
\<close>

fun modify4slice ::
  "nat \<Rightarrow> coordinates \<Rightarrow> bool \<Rightarrow> (nat \<times> step list) list \<Rightarrow> slicer \<Rightarrow> slicer result" where
  "modify4slice sl new_coords is_plus [] s = Done s"
| "modify4slice sl new_coords is_plus (tr # trs) s =
     (case modify4new_slice new_coords is_plus (snd tr) (TranscriptTrimmer_init (fst tr) sl s) of
        Done t \<Rightarrow> modify4slice sl new_coords is_plus trs (shared_state t)
      | Raised e t \<Rightarrow>
          if e = NoFeaturesInSliceError
          then (case double_check new_coords is_plus (fst tr) (shared_state t) of
                  None \<Rightarrow> modify4slice sl new_coords is_plus trs (shared_state t)
                | Some e' \<Rightarrow> Raised e' (shared_state t))
          else Raised e (shared_state t))"

text \<open>A store holding the given features, one piece of transcript 0, and nothing else.\<close>

definition store_of :: "feature list \<Rightarrow> slicer" where
  "store_of fs =
     \<lparr> features = (\<lambda>h. if h < length fs then fs ! h
                        else mk_feature 0 0 True (mk_coords 0 [] 0 0) 0),
       n_features = length fs,
       pieces = [\<lparr> tp_super_locus = 0, tp_transcribed = 0 \<rparr>],
       coordinate_rows = (\<lambda>i. mk_coords i [] 0 0),
       interval_trees = [],
       piece_swaps = [],
       coord_swaps = [] \<rparr>"

text \<open>The entries that the trees hold for a sequence id (for stating properties).\<close>

definition tree_entries :: "'a slicer_scheme \<Rightarrow> string \<Rightarrow> interval set" where
  "tree_entries s sq = (case map_of (interval_trees s) sq of None \<Rightarrow> {} | Some t \<Rightarrow> set t)"

text \<open>
  The invariant of a trimmer run that starts with the pieces \<open>P\<close>: either no downstream
  piece has been made, or exactly one has, and the attribute holds it.
\<close>

definition piece_inv :: "transcribed_piece_row list \<Rightarrow> nat \<Rightarrow> nat \<Rightarrow> TranscriptTrimmer \<Rightarrow> bool" where
  "piece_inv P tr sl t \<longleftrightarrow>
     transcript t = tr \<and> super_locus t = sl \<and>
     ((downstream_piece_attr t = None \<and> pieces t = P) \<or>
      (downstream_piece_attr t = Some (length P)
       \<and> pieces t = P @ [\<lparr> tp_super_locus = sl, tp_transcribed = tr \<rparr>]))"

text \<open>
  A step is quiet in a state when its first feature is classified neither as Contained
  nor as OverlapsDownstream there.
\<close>

definition quiet :: "coordinates \<Rightarrow> bool \<Rightarrow> TranscriptTrimmer \<Rightarrow> step \<Rightarrow> bool" where
  "quiet new_coords is_plus t stp \<longleftrightarrow>
     classify (mk_FeatureVsCoords (features t (hd (fst stp))) new_coords is_plus) \<noteq> Some Contained
     \<and> classify (mk_FeatureVsCoords (features t (hd (fst stp))) new_coords is_plus)
         \<noteq> Some OverlapsDownstream"

text \<open>The coordinate of a whole sequence and a window on it, for the closed theorems.\<close>

definition chr1 :: coordinates where
  "chr1 = mk_coords 0 ''chr1'' 0 100000"

definition window :: coordinates where
  "window = mk_coords 1 ''chr1'' 1000 2000"

text \<open>
  A transcript with two features that both cross the end of the window \<open>[1000, 2000)\<close>,
  and the state of its trimmer after the step for the first of them.
\<close>

definition two_crossing :: TranscriptTrimmer where
  "two_crossing =
     TranscriptTrimmer_init 0 0
       (store_of [mk_feature 1200 2500 True chr1 0, mk_feature 1500 2500 True chr1 0])"

definition after_first_split :: TranscriptTrimmer where
  "after_first_split =
     snd (state_of (trim_step window True ([0], 0)
            (\<lparr> seen_one_overlap = False, piece_at_border = None \<rparr>, two_crossing)))"

text \<open>The categories that come before a category in the chain of \<^verbatim>\<open>modify4new_slice\<close>.\<close>

fun before :: "category \<Rightarrow> category list" where
  "before Detached = []"
| "before Upstream = [Detached]"
| "before OverlapsUpstream = [Detached, Upstream]"
| "before Contained = [Detached, Upstream, OverlapsUpstream]"
| "before OverlapsDownstream = [Detached, Upstream, OverlapsUpstream, Contained]"
| "before Downstream = [Detached, Upstream, OverlapsUpstream, Contained, OverlapsDownstream]"



section \<open>Properties of the classifier\<close>

lemma some_geometric_predicate:
  "is_upstream v \<or> overlaps_upstream v \<or> is_contained v \<or> overlaps_downstream v \<or> is_downstream v"
  unfolding is_upstream_def overlaps_upstream_def is_contained_def overlaps_downstream_def
    is_downstream_def is_lower_def is_higher_def overlaps_lower_def overlaps_higher_def Let_def
  by (cases "fvc_is_plus_strand v") auto

lemma classify_first_match:
  "classify v = Some c \<Longrightarrow> holds c v"
  unfolding classify_def by (auto split: if_splits)

lemma classify_is_first:
  "classify v = Some c \<longleftrightarrow> holds c v \<and> (\<forall>c' \<in> set (before c). \<not> holds c' v)"
  unfolding classify_def by (cases c) auto

text \<open>
  C1 (as stated): exactly one of the six classifier predicates holds for every input.
  This fails. A feature that spans the whole window, \<open>[500, 2500)\<close> against
  \<open>[1000, 2000)\<close> on the plus strand, satisfies both \<^verbatim>\<open>overlaps_upstream\<close> and
  \<^verbatim>\<open>overlaps_downstream\<close>.
\<close>

theorem C1_two_categories_hold:
  "holds OverlapsUpstream
     (mk_FeatureVsCoords (mk_feature 500 2500 True (mk_coords 0 ''chr1'' 0 100000) 0)
                         (mk_coords 1 ''chr1'' 1000 2000) True)
   \<and> holds OverlapsDownstream
     (mk_FeatureVsCoords (mk_feature 500 2500 True (mk_coords 0 ''chr1'' 0 100000) 0)
                         (mk_coords 1 ''chr1'' 1000 2000) True)"
  by (simp add: classifier_defs mk_feature_def mk_coords_def)

text \<open>
  C1 (amended): for every feature, window and strand flag at least one of the six
  predicates holds, so the chain never reaches its final \<^verbatim>\<open>else\<close> branch; the chain
  returns one category, and it is the first one in the order Detached, Upstream,
  OverlapsUpstream, Contained, OverlapsDownstream, Downstream whose predicate holds: a
  category is returned if and only if its predicate holds and the predicate of no
  category before it does.
\<close>

theorem C1_classify_total:
  "(\<exists>c. holds c (mk_FeatureVsCoords f sc is_plus))
   \<and> classify (mk_FeatureVsCoords f sc is_plus) \<noteq> None
   \<and> (\<exists>!c. classify (mk_FeatureVsCoords f sc is_plus) = Some c)
   \<and> holds (the (classify (mk_FeatureVsCoords f sc is_plus))) (mk_FeatureVsCoords f sc is_plus)
   \<and> (classify (mk_FeatureVsCoords f sc is_plus) = Some c
        \<longleftrightarrow> holds c (mk_FeatureVsCoords f sc is_plus)
            \<and> (\<forall>c' \<in> set (before c). \<not> holds c' (mk_FeatureVsCoords f sc is_plus)))"
proof -
  let ?v = "mk_FeatureVsCoords f sc is_plus"
  have total: "classify ?v \<noteq> None"
    using some_geometric_predicate [of ?v] unfolding classify_def by auto
  then obtain d where d: "classify ?v = Some d" by auto
  have h: "holds d ?v" using d by (rule classify_first_match)
  have ex: "\<exists>c. holds c ?v" using h by blast
  have uniq: "\<exists>!c. classify ?v = Some c" using d by auto
  have first: "classify ?v = Some c \<longleftrightarrow> holds c ?v \<and> (\<forall>c' \<in> set (before c). \<not> holds c' ?v)"
    by (rule classify_is_first)
  show ?thesis using total ex uniq h d first by simp
qed

theorem C1_classify_total_witness:
  "classify (mk_FeatureVsCoords (mk_feature 500 2500 True (mk_coords 0 ''chr1'' 0 100000) 0)
                                (mk_coords 1 ''chr1'' 1000 2000) True) = Some OverlapsUpstream
   \<and> holds OverlapsDownstream
        (mk_FeatureVsCoords (mk_feature 500 2500 True (mk_coords 0 ''chr1'' 0 100000) 0)
                            (mk_coords 1 ''chr1'' 1000 2000) True)
   \<and> classify (mk_FeatureVsCoords (mk_feature 500 2500 True (mk_coords 0 ''chr1'' 0 100000) 0)
                                (mk_coords 1 ''chr1'' 1000 2000) True) \<noteq> Some OverlapsDownstream"
proof -
  let ?f = "mk_feature 500 2500 True (mk_coords 0 ''chr1'' 0 100000) 0"
  let ?w = "mk_coords 1 ''chr1'' 1000 2000"
  have a: "holds OverlapsUpstream (mk_FeatureVsCoords ?f ?w True)
           \<and> (\<forall>c' \<in> set (before OverlapsUpstream). \<not> holds c' (mk_FeatureVsCoords ?f ?w True))"
    by (simp add: classifier_defs mk_feature_def mk_coords_def)
  have b: "holds OverlapsDownstream (mk_FeatureVsCoords ?f ?w True)"
    by (simp add: classifier_defs mk_feature_def mk_coords_def)
  have c: "\<not> (\<forall>c' \<in> set (before OverlapsDownstream). \<not> holds c' (mk_FeatureVsCoords ?f ?w True))"
    by (simp add: classifier_defs mk_feature_def mk_coords_def)
  from C1_classify_total [of ?f ?w True OverlapsUpstream] a
  have r1: "classify (mk_FeatureVsCoords ?f ?w True) = Some OverlapsUpstream" by blast
  from C1_classify_total [of ?f ?w True OverlapsDownstream] c
  have r2: "classify (mk_FeatureVsCoords ?f ?w True) \<noteq> Some OverlapsDownstream" by blast
  from r1 b r2 show ?thesis by blast
qed

text \<open>
  C5 (as stated): for the same raw coordinates and window, a feature that is returned as
  Upstream on one strand is returned as Downstream on the other, and vice versa. This
  fails for a window one position wide. The plus-strand feature with \<open>start = 0\<close>,
  \<open>end = 500\<close> is Upstream of the window \<open>[500, 501)\<close>, and with the same raw
  coordinates on the minus strand it is Upstream again. The minus-strand feature with
  \<open>start = 1000\<close>, \<open>end = 500\<close> is Upstream of that window, and with the same raw
  coordinates on the plus strand it is Upstream again.
\<close>

theorem C5_flip_narrow_window:
  "classify (mk_FeatureVsCoords (mk_feature 0 500 True (mk_coords 0 ''chr1'' 0 100000) 0)
                                (mk_coords 1 ''chr1'' 500 501) True) = Some Upstream
   \<and> classify (mk_FeatureVsCoords (mk_feature 0 500 False (mk_coords 0 ''chr1'' 0 100000) 0)
                                (mk_coords 1 ''chr1'' 500 501) False) = Some Upstream
   \<and> classify (mk_FeatureVsCoords (mk_feature 1000 500 False (mk_coords 0 ''chr1'' 0 100000) 0)
                                (mk_coords 1 ''chr1'' 500 501) False) = Some Upstream
   \<and> classify (mk_FeatureVsCoords (mk_feature 1000 500 True (mk_coords 0 ''chr1'' 0 100000) 0)
                                (mk_coords 1 ''chr1'' 500 501) True) = Some Upstream"
  by (simp add: classify_def classifier_defs mk_feature_def mk_coords_def)

text \<open>
  C5 (amended): the feature's own strand follows the strand flag. For raw coordinates in
  the order of the plus strand (\<open>start < end\<close>): if the feature is Upstream on the plus
  strand and the window is at least two positions wide, it is Downstream on the minus
  strand with the same raw coordinates; if it is Downstream on the plus strand, it is
  Upstream on the minus strand. For raw coordinates in the order of the minus strand
  (\<open>end < start\<close>) the same holds from the minus strand to the plus strand. For the same
  bases on both strands, that is \<open>start = e - 1\<close>, \<open>end = s - 1\<close> on the minus strand for
  \<open>[s, e)\<close> on the plus strand, with \<open>s < e\<close> and a window that is not empty, the feature
  is Upstream on the plus strand if and only if it is Downstream on the minus strand,
  and Downstream on the plus strand if and only if it is Upstream on the minus strand.
  The feature \<open>[0, 500)\<close> against the window \<open>[1000, 2000)\<close> is Upstream on the plus strand
  and Downstream on the minus strand, under both readings.
\<close>

theorem C5_flip_by_strand:
  "(f_start f < f_end f \<longrightarrow>
      (c_start sc + 1 < c_end sc \<longrightarrow>
         classify (mk_FeatureVsCoords (f\<lparr>is_plus_strand := True\<rparr>) sc True) = Some Upstream \<longrightarrow>
         classify (mk_FeatureVsCoords (f\<lparr>is_plus_strand := False\<rparr>) sc False) = Some Downstream)
      \<and> (classify (mk_FeatureVsCoords (f\<lparr>is_plus_strand := True\<rparr>) sc True) = Some Downstream \<longrightarrow>
         classify (mk_FeatureVsCoords (f\<lparr>is_plus_strand := False\<rparr>) sc False) = Some Upstream))
   \<and> (f_end f < f_start f \<longrightarrow>
      (c_start sc + 1 < c_end sc \<longrightarrow>
         classify (mk_FeatureVsCoords (f\<lparr>is_plus_strand := False\<rparr>) sc False) = Some Upstream \<longrightarrow>
         classify (mk_FeatureVsCoords (f\<lparr>is_plus_strand := True\<rparr>) sc True) = Some Downstream)
      \<and> (classify (mk_FeatureVsCoords (f\<lparr>is_plus_strand := False\<rparr>) sc False) = Some Downstream \<longrightarrow>
         classify (mk_FeatureVsCoords (f\<lparr>is_plus_strand := True\<rparr>) sc True) = Some Upstream))
   \<and> (f_start f < f_end f \<and> c_start sc < c_end sc \<longrightarrow>
      (classify (mk_FeatureVsCoords (f\<lparr>is_plus_strand := True\<rparr>) sc True) = Some Upstream
         \<longleftrightarrow> classify (mk_FeatureVsCoords
                (f\<lparr>f_start := f_end f - 1, f_end := f_start f - 1, is_plus_strand := False\<rparr>)
                sc False) = Some Downstream)
      \<and> (classify (mk_FeatureVsCoords (f\<lparr>is_plus_strand := True\<rparr>) sc True) = Some Downstream
         \<longleftrightarrow> classify (mk_FeatureVsCoords
                (f\<lparr>f_start := f_end f - 1, f_end := f_start f - 1, is_plus_strand := False\<rparr>)
                sc False) = Some Upstream))"
proof -
  have i: "f_start f < f_end f \<longrightarrow>
      (c_start sc + 1 < c_end sc \<longrightarrow>
         classify (mk_FeatureVsCoords (f\<lparr>is_plus_strand := True\<rparr>) sc True) = Some Upstream \<longrightarrow>
         classify (mk_FeatureVsCoords (f\<lparr>is_plus_strand := False\<rparr>) sc False) = Some Downstream)
      \<and> (classify (mk_FeatureVsCoords (f\<lparr>is_plus_strand := True\<rparr>) sc True) = Some Downstream \<longrightarrow>
         classify (mk_FeatureVsCoords (f\<lparr>is_plus_strand := False\<rparr>) sc False) = Some Upstream)"
    by (auto simp add: classify_def classifier_defs Let_def split: if_splits)
  have ii: "f_end f < f_start f \<longrightarrow>
      (c_start sc + 1 < c_end sc \<longrightarrow>
         classify (mk_FeatureVsCoords (f\<lparr>is_plus_strand := False\<rparr>) sc False) = Some Upstream \<longrightarrow>
         classify (mk_FeatureVsCoords (f\<lparr>is_plus_strand := True\<rparr>) sc True) = Some Downstream)
      \<and> (classify (mk_FeatureVsCoords (f\<lparr>is_plus_strand := False\<rparr>) sc False) = Some Downstream \<longrightarrow>
         classify (mk_FeatureVsCoords (f\<lparr>is_plus_strand := True\<rparr>) sc True) = Some Upstream)"
    by (auto simp add: classify_def classifier_defs Let_def split: if_splits)
  have iii: "f_start f < f_end f \<and> c_start sc < c_end sc \<longrightarrow>
      (classify (mk_FeatureVsCoords (f\<lparr>is_plus_strand := True\<rparr>) sc True) = Some Upstream
         \<longleftrightarrow> classify (mk_FeatureVsCoords
                (f\<lparr>f_start := f_end f - 1, f_end := f_start f - 1, is_plus_strand := False\<rparr>)
                sc False) = Some Downstream)
      \<and> (classify (mk_FeatureVsCoords (f\<lparr>is_plus_strand := True\<rparr>) sc True) = Some Downstream
         \<longleftrightarrow> classify (mk_FeatureVsCoords
                (f\<lparr>f_start := f_end f - 1, f_end := f_start f - 1, is_plus_strand := False\<rparr>)
                sc False) = Some Upstream)"
    by (auto simp add: classify_def classifier_defs Let_def split: if_splits)
  from i ii iii show ?thesis by blast
qed

theorem C5_flip_by_strand_witness:
  "classify (mk_FeatureVsCoords (mk_feature 0 500 True (mk_coords 0 ''chr1'' 0 100000) 0)
                                (mk_coords 1 ''chr1'' 1000 2000) True) = Some Upstream
   \<and> classify (mk_FeatureVsCoords (mk_feature 0 500 False (mk_coords 0 ''chr1'' 0 100000) 0)
                                (mk_coords 1 ''chr1'' 1000 2000) False) = Some Downstream
   \<and> classify (mk_FeatureVsCoords (mk_feature 3000 2500 False (mk_coords 0 ''chr1'' 0 100000) 0)
                                (mk_coords 1 ''chr1'' 1000 2000) False) = Some Upstream
   \<and> classify (mk_FeatureVsCoords (mk_feature 3000 2500 True (mk_coords 0 ''chr1'' 0 100000) 0)
                                (mk_coords 1 ''chr1'' 1000 2000) True) = Some Downstream
   \<and> classify (mk_FeatureVsCoords
        ((mk_feature 0 500 True (mk_coords 0 ''chr1'' 0 100000) 0)
           \<lparr>f_start := 499, f_end := - 1, is_plus_strand := False\<rparr>)
        (mk_coords 1 ''chr1'' 1000 2000) False) = Some Downstream"
proof -
  let ?c = "mk_coords 0 ''chr1'' 0 100000"
  let ?w = "mk_coords 1 ''chr1'' 1000 2000"
  let ?f = "mk_feature 0 500 True ?c 0"
  let ?g = "mk_feature 3000 2500 False ?c 0"
  have a: "f_start ?f < f_end ?f" and b: "f_end ?g < f_start ?g"
    by (simp_all add: mk_feature_def)
  have w: "c_start ?w + 1 < c_end ?w" "c_start ?w < c_end ?w" by (simp_all add: mk_coords_def)
  have up: "classify (mk_FeatureVsCoords ?f ?w True) = Some Upstream"
    by (simp add: classify_def classifier_defs mk_feature_def mk_coords_def)
  have mup: "classify (mk_FeatureVsCoords ?g ?w False) = Some Upstream"
    by (simp add: classify_def classifier_defs mk_feature_def mk_coords_def)
  have f1: "?f\<lparr>is_plus_strand := True\<rparr> = ?f"
    and f2: "?f\<lparr>is_plus_strand := False\<rparr> = mk_feature 0 500 False ?c 0"
    and g1: "?g\<lparr>is_plus_strand := False\<rparr> = ?g"
    and g2: "?g\<lparr>is_plus_strand := True\<rparr> = mk_feature 3000 2500 True ?c 0"
    and f3: "?f\<lparr>f_start := f_end ?f - 1, f_end := f_start ?f - 1, is_plus_strand := False\<rparr>
             = ?f\<lparr>f_start := 499, f_end := - 1, is_plus_strand := False\<rparr>"
    by (simp_all add: mk_feature_def)
  from C5_flip_by_strand [of ?f ?w] a w up
  have r1: "classify (mk_FeatureVsCoords (mk_feature 0 500 False ?c 0) ?w False) = Some Downstream"
    unfolding f1 f2 by blast
  from C5_flip_by_strand [of ?g ?w] b w mup
  have r2: "classify (mk_FeatureVsCoords (mk_feature 3000 2500 True ?c 0) ?w True) = Some Downstream"
    unfolding g1 g2 by blast
  from C5_flip_by_strand [of ?f ?w] a w up
  have r3: "classify (mk_FeatureVsCoords
              (?f\<lparr>f_start := 499, f_end := - 1, is_plus_strand := False\<rparr>) ?w False)
            = Some Downstream"
    unfolding f1 f3 by blast
  from up r1 mup r2 r3 show ?thesis by blast
qed

text \<open>
  C6 (as stated): \<^verbatim>\<open>is_contained\<close> is true if and only if
  \<open>effective_start \<ge> window.start\<close> and \<open>effective_end \<le> window.end\<close>. This fails for an
  empty feature on the edge of the window: with \<open>start = end = 2000\<close> on the plus strand
  and the window \<open>[1000, 2000)\<close> both inequalities hold and \<^verbatim>\<open>is_contained\<close> is false.
\<close>

theorem C6_contained_counterexample:
  "\<not> (is_contained (mk_FeatureVsCoords (mk_feature 2000 2000 True (mk_coords 0 ''chr1'' 0 100000) 0)
                                       (mk_coords 1 ''chr1'' 1000 2000) True)
       \<longleftrightarrow> (feature_py_start (mk_FeatureVsCoords (mk_feature 2000 2000 True (mk_coords 0 ''chr1'' 0 100000) 0)
                                       (mk_coords 1 ''chr1'' 1000 2000) True) \<ge> c_start (mk_coords 1 ''chr1'' 1000 2000)
            \<and> feature_py_end (mk_FeatureVsCoords (mk_feature 2000 2000 True (mk_coords 0 ''chr1'' 0 100000) 0)
                                       (mk_coords 1 ''chr1'' 1000 2000) True) \<le> c_end (mk_coords 1 ''chr1'' 1000 2000)))"
  by (simp add: classifier_defs mk_feature_def mk_coords_def)

text \<open>
  C6 (amended): with \<open>effective_start = start\<close>, \<open>effective_end = end\<close> on the plus strand
  and \<open>effective_start = end + 1\<close>, \<open>effective_end = start + 1\<close> on the minus strand,
  \<^verbatim>\<open>is_contained\<close> is true if and only if
  \<open>window.start \<le> effective_start < window.end\<close> and
  \<open>window.start < effective_end \<le> window.end\<close>. For a feature with
  \<open>effective_start < effective_end\<close> this is the same as \<open>effective_start \<ge> window.start\<close>
  and \<open>effective_end \<le> window.end\<close>.
\<close>

theorem C6_contained_iff:
  "(feature_py_start (mk_FeatureVsCoords f sc is_plus) = (if is_plus then f_start f else f_end f + 1))
   \<and> (feature_py_end (mk_FeatureVsCoords f sc is_plus) = (if is_plus then f_end f else f_start f + 1))
   \<and> (is_contained (mk_FeatureVsCoords f sc is_plus) \<longleftrightarrow>
        c_start sc \<le> feature_py_start (mk_FeatureVsCoords f sc is_plus)
        \<and> feature_py_start (mk_FeatureVsCoords f sc is_plus) < c_end sc
        \<and> c_start sc < feature_py_end (mk_FeatureVsCoords f sc is_plus)
        \<and> feature_py_end (mk_FeatureVsCoords f sc is_plus) \<le> c_end sc)
   \<and> (feature_py_start (mk_FeatureVsCoords f sc is_plus) < feature_py_end (mk_FeatureVsCoords f sc is_plus) \<longrightarrow>
        (is_contained (mk_FeatureVsCoords f sc is_plus) \<longleftrightarrow>
           feature_py_start (mk_FeatureVsCoords f sc is_plus) \<ge> c_start sc
           \<and> feature_py_end (mk_FeatureVsCoords f sc is_plus) \<le> c_end sc))"
  by (auto simp add: classifier_defs Let_def)

theorem C6_contained_iff_witness:
  "feature_py_start (mk_FeatureVsCoords (mk_feature 1999 999 False (mk_coords 0 ''chr1'' 0 100000) 0)
                                        (mk_coords 1 ''chr1'' 1000 2000) False) = 1000
   \<and> feature_py_end (mk_FeatureVsCoords (mk_feature 1999 999 False (mk_coords 0 ''chr1'' 0 100000) 0)
                                        (mk_coords 1 ''chr1'' 1000 2000) False) = 2000
   \<and> is_contained (mk_FeatureVsCoords (mk_feature 1999 999 False (mk_coords 0 ''chr1'' 0 100000) 0)
                                      (mk_coords 1 ''chr1'' 1000 2000) False)"
  using C6_contained_iff [of "mk_feature 1999 999 False (mk_coords 0 ''chr1'' 0 100000) 0"
                             "mk_coords 1 ''chr1'' 1000 2000" False]
  by (simp add: mk_feature_def mk_coords_def)

section \<open>The interval index\<close>

lemma load_features [simp]: "features (load_to_intervaltree h s) = features s"
  by (simp add: load_to_intervaltree_def Let_def)

lemma fill_features [simp]: "features (fill_intervaltrees hs s) = features s"
  unfolding fill_intervaltrees_def by (induction hs arbitrary: s) simp_all

lemma load_entries:
  "tree_entries (load_to_intervaltree h s) sq =
     tree_entries s sq \<union>
       (if seqid (coordinate (features s h)) = sq
        then {(position (features s h), position (features s h) + 1, h)} else {})"
  by (auto simp add: tree_entries_def load_to_intervaltree_def Let_def update_conv' tree_add_def
      split: option.splits)

lemma fill_entries:
  "tree_entries (fill_intervaltrees hs s) sq =
     tree_entries s sq \<union>
       {(position (features s h), position (features s h) + 1, h) | h.
          h \<in> set hs \<and> seqid (coordinate (features s h)) = sq}"
  unfolding fill_intervaltrees_def
proof (induction hs arbitrary: s)
  case Nil
  then show ?case by simp
next
  case (Cons a hs)
  show ?case
    by (simp add: Cons.IH load_entries) auto
qed

lemma load_nonempty: "interval_trees (load_to_intervaltree h s) \<noteq> []"
  by (cases "interval_trees s") (simp_all add: load_to_intervaltree_def Let_def)

lemma fold_load_nonempty:
  "interval_trees s \<noteq> [] \<Longrightarrow> interval_trees (fold load_to_intervaltree hs s) \<noteq> []"
  by (induction hs arbitrary: s) (simp_all add: load_nonempty)

lemma fill_nonempty: "hs \<noteq> [] \<Longrightarrow> interval_trees (fill_intervaltrees hs s) \<noteq> []"
  unfolding fill_intervaltrees_def
  by (cases hs) (simp_all add: fold_load_nonempty load_nonempty)

lemma get_features_set:
  "interval_trees s \<noteq> [] \<Longrightarrow>
   \<exists>r. get_features_from_slice s sq a b p = Inr r \<and>
       set r = {h. \<exists>ib ie. (ib, ie, h) \<in> tree_entries s sq \<and> ib < b \<and> ie > a \<and> a < b
                  \<and> is_plus_strand (features s h) = p}"
  by (force simp add: get_features_from_slice_def tree_entries_def tree_overlap_def
      split: option.splits)

lemmas index_eval =
  fill_intervaltrees_def load_to_intervaltree_def store_of_def mk_feature_def mk_coords_def
  get_features_from_slice_def tree_overlap_def tree_add_def Let_def

text \<open>
  C8 (as stated): every feature whose extent intersects the window on the requested
  strand is in the result. This fails: the plus-strand feature \<open>[500, 2500)\<close> is indexed
  at its position 500 only, and the query for \<open>[1000, 2000)\<close> on the plus strand returns
  nothing.
\<close>

theorem C8_extent_counterexample:
  "get_features_from_slice
     (fill_intervaltrees [0] (store_of [mk_feature 500 2500 True (mk_coords 0 ''chr1'' 0 100000) 0]))
     ''chr1'' 1000 2000 True = Inr []
   \<and> f_start (mk_feature 500 2500 True (mk_coords 0 ''chr1'' 0 100000) 0) < 2000
   \<and> 1000 < f_end (mk_feature 500 2500 True (mk_coords 0 ''chr1'' 0 100000) 0)
   \<and> is_plus_strand (mk_feature 500 2500 True (mk_coords 0 ''chr1'' 0 100000) 0)
   \<and> seqid (coordinate (mk_feature 500 2500 True (mk_coords 0 ''chr1'' 0 100000) 0)) = ''chr1''"
  by (simp add: index_eval)

text \<open>
  C8 (amended): an index is built by \<^verbatim>\<open>fill_intervaltrees\<close> from an empty dictionary and
  a non-empty list of features. A query for \<open>(seqid, start, end, strand)\<close> then returns
  exactly the loaded features on that sequence and strand whose \<^verbatim>\<open>position\<close> lies in
  \<open>[start, end)\<close>. The extent of a feature plays no part.
\<close>

theorem C8_index_query:
  assumes "interval_trees s = []" and "hs \<noteq> []"
  shows "\<exists>r. get_features_from_slice (fill_intervaltrees hs s) sq a b p = Inr r \<and>
           set r = {h \<in> set hs. seqid (coordinate (features s h)) = sq
                      \<and> a \<le> position (features s h) \<and> position (features s h) < b
                      \<and> is_plus_strand (features s h) = p}"
proof -
  have e: "tree_entries s sq = {}" using assms(1) by (simp add: tree_entries_def)
  from get_features_set [OF fill_nonempty [OF assms(2)], of s sq a b p]
  obtain r where r: "get_features_from_slice (fill_intervaltrees hs s) sq a b p = Inr r"
    and sr: "set r = {h. \<exists>ib ie. (ib, ie, h) \<in> tree_entries (fill_intervaltrees hs s) sq
                \<and> ib < b \<and> ie > a \<and> a < b \<and> is_plus_strand (features (fill_intervaltrees hs s) h) = p}"
    by blast
  have "set r = {h \<in> set hs. seqid (coordinate (features s h)) = sq
                      \<and> a \<le> position (features s h) \<and> position (features s h) < b
                      \<and> is_plus_strand (features s h) = p}"
    unfolding sr fill_entries e by auto
  with r show ?thesis by blast
qed

theorem C8_index_query_witness:
  "interval_trees (store_of [mk_feature 1500 1600 True (mk_coords 0 ''chr1'' 0 100000) 0,
                             mk_feature 500 2500 True (mk_coords 0 ''chr1'' 0 100000) 0,
                             mk_feature 1700 1650 False (mk_coords 0 ''chr1'' 0 100000) 0]) = []
   \<and> [0, 1, 2] \<noteq> ([] :: nat list)
   \<and> (\<exists>r. get_features_from_slice
            (fill_intervaltrees [0, 1, 2]
               (store_of [mk_feature 1500 1600 True (mk_coords 0 ''chr1'' 0 100000) 0,
                          mk_feature 500 2500 True (mk_coords 0 ''chr1'' 0 100000) 0,
                          mk_feature 1700 1650 False (mk_coords 0 ''chr1'' 0 100000) 0]))
            ''chr1'' 1000 2000 True = Inr r \<and> set r = {0})"
proof -
  let ?s = "store_of [mk_feature 1500 1600 True (mk_coords 0 ''chr1'' 0 100000) 0,
                      mk_feature 500 2500 True (mk_coords 0 ''chr1'' 0 100000) 0,
                      mk_feature 1700 1650 False (mk_coords 0 ''chr1'' 0 100000) 0]"
  have a: "interval_trees ?s = []" by (simp add: store_of_def)
  have b: "[0, 1, 2] \<noteq> ([] :: nat list)" by simp
  have c: "{h \<in> set [0, 1, 2 :: nat]. seqid (coordinate (features ?s h)) = ''chr1''
             \<and> 1000 \<le> position (features ?s h) \<and> position (features ?s h) < 2000
             \<and> is_plus_strand (features ?s h) = True} = {0}"
    by (auto simp add: store_of_def mk_feature_def mk_coords_def)
  from C8_index_query [OF a b, of "''chr1''" 1000 2000 True] c
  have "\<exists>r. get_features_from_slice (fill_intervaltrees [0, 1, 2] ?s) ''chr1'' 1000 2000 True = Inr r
            \<and> set r = {0}"
    by simp
  with a b show ?thesis by blast
qed

text \<open>
  C10: \<^verbatim>\<open>get_features_from_slice\<close> raises \<^verbatim>\<open>ValueError\<close> when the dictionary of interval
  trees is empty; when the dictionary is not empty and has no tree for the requested
  sequence id, it returns the empty list and raises nothing.
\<close>

theorem C10_empty_index_vs_missing_seqid:
  "(interval_trees s = [] \<longrightarrow> get_features_from_slice s sq a b p = Inl ValueError)
   \<and> (interval_trees s \<noteq> [] \<and> map_of (interval_trees s) sq = None \<longrightarrow>
        get_features_from_slice s sq a b p = Inr [])"
  by (simp add: get_features_from_slice_def)

theorem C10_empty_index_vs_missing_seqid_witness:
  "interval_trees (store_of [mk_feature 1500 1600 True (mk_coords 0 ''chr1'' 0 100000) 0]) = []
   \<and> get_features_from_slice (store_of [mk_feature 1500 1600 True (mk_coords 0 ''chr1'' 0 100000) 0])
        ''chr1'' 1000 2000 True = Inl ValueError
   \<and> interval_trees (fill_intervaltrees [0]
        (store_of [mk_feature 1500 1600 True (mk_coords 0 ''chr1'' 0 100000) 0])) \<noteq> []
   \<and> map_of (interval_trees (fill_intervaltrees [0]
        (store_of [mk_feature 1500 1600 True (mk_coords 0 ''chr1'' 0 100000) 0]))) ''chr2'' = None
   \<and> get_features_from_slice (fill_intervaltrees [0]
        (store_of [mk_feature 1500 1600 True (mk_coords 0 ''chr1'' 0 100000) 0]))
        ''chr2'' 1000 2000 True = Inr []"
proof -
  let ?s = "store_of [mk_feature 1500 1600 True (mk_coords 0 ''chr1'' 0 100000) 0]"
  have a: "interval_trees ?s = []" by (simp add: store_of_def)
  have b: "interval_trees (fill_intervaltrees [0] ?s) \<noteq> []
           \<and> map_of (interval_trees (fill_intervaltrees [0] ?s)) ''chr2'' = None"
    by (simp add: fill_intervaltrees_def load_to_intervaltree_def store_of_def mk_feature_def
        mk_coords_def tree_add_def Let_def)
  from C10_empty_index_vs_missing_seqid [of ?s "''chr1''" 1000 2000 True] a
  have c: "get_features_from_slice ?s ''chr1'' 1000 2000 True = Inl ValueError" by blast
  from C10_empty_index_vs_missing_seqid [of "fill_intervaltrees [0] ?s" "''chr2''" 1000 2000 True] b
  have d: "get_features_from_slice (fill_intervaltrees [0] ?s) ''chr2'' 1000 2000 True = Inr []"
    by blast
  from a b c d show ?thesis by blast
qed

section \<open>The downstream piece of a trimmer\<close>

lemma piece_inv_frame:
  "piece_inv P tr sl t \<Longrightarrow> transcript t' = transcript t \<Longrightarrow> super_locus t' = super_locus t \<Longrightarrow>
   downstream_piece_attr t' = downstream_piece_attr t \<Longrightarrow> pieces t' = pieces t \<Longrightarrow>
   piece_inv P tr sl t'"
  by (simp add: piece_inv_def)

lemma downstream_piece_inv:
  "piece_inv P tr sl t \<Longrightarrow> piece_inv P tr sl (fst (downstream_piece t))"
  by (auto simp add: piece_inv_def downstream_piece_def mk_new_piece_def Let_def
      split: option.splits)

lemma execute_so_far_inv:
  "piece_inv P tr sl t \<Longrightarrow> piece_inv P tr sl (execute_so_far t)"
  by (erule piece_inv_frame) (simp_all add: execute_so_far_def Let_def)

lemma set_status_inv:
  "piece_inv P tr sl t \<Longrightarrow>
   piece_inv P tr sl (state_of (set_status_downstream_border nc oc ip f np op t))"
  by (erule piece_inv_frame)
     (simp_all add: set_status_downstream_border_def new_handled_data_def
        load_to_intervaltree_def swap_piece_def Let_def)

lemma split_aligned_inv:
  "piece_inv P tr sl t \<Longrightarrow>
   piece_inv P tr sl (state_of (split_aligned nc ip f0 pab np fs t))"
proof (induction fs arbitrary: t)
  case Nil
  then show ?case by simp
next
  case (Cons f fs)
  from set_status_inv [OF Cons.prems, of nc "coordinate (features t f0)" ip f np pab]
  have i: "piece_inv P tr sl
             (state_of (set_status_downstream_border nc (coordinate (features t f0)) ip f np pab t))" .
  show ?case
  proof (cases "set_status_downstream_border nc (coordinate (features t f0)) ip f np pab t")
    case (Done t')
    with i Cons.IH [of t'] show ?thesis by simp
  next
    case (Raised e t')
    with i show ?thesis by simp
  qed
qed

lemma queue_piece_swaps_inv:
  "piece_inv P tr sl t \<Longrightarrow> piece_inv P tr sl (queue_piece_swaps pab fs t)"
proof (induction fs arbitrary: t)
  case Nil
  then show ?case by simp
next
  case (Cons f fs)
  have "piece_inv P tr sl (fst (downstream_piece t))"
    using Cons.prems by (rule downstream_piece_inv)
  then have "piece_inv P tr sl
     ((fst (downstream_piece t)) \<lparr> piece_swaps := piece_swaps (fst (downstream_piece t))
        @ [\<lparr> piece_id_old = pab, piece_id_new = snd (downstream_piece t), ps_feat_id = f \<rparr>] \<rparr>)"
    by (rule piece_inv_frame) simp_all
  then show ?case
    using Cons.IH by (simp add: case_prod_beta)
qed

lemma trim_step_inv:
  "piece_inv P tr sl (snd st) \<Longrightarrow>
   piece_inv P tr sl (snd (state_of (trim_step nc ip stp st)))"
proof -
  assume a: "piece_inv P tr sl (snd st)"
  have cs: "\<And>x. piece_inv P tr sl ((snd st) \<lparr> coord_swaps := x \<rparr>)"
    using a by (rule piece_inv_frame) simp_all
  have od: "\<And>f0 pab fs. piece_inv P tr sl
     (state_of (split_aligned nc ip f0 pab (snd (downstream_piece (snd st))) fs
                  (execute_so_far (fst (downstream_piece (snd st))))))"
    by (intro split_aligned_inv execute_so_far_inv downstream_piece_inv a)
  have od': "\<And>f0 pab fs vs1. piece_inv P tr sl
     (snd (state_of
        (case split_aligned nc ip f0 pab (snd (downstream_piece (snd st))) fs
                (execute_so_far (fst (downstream_piece (snd st)))) of
           Raised e t3 \<Rightarrow> Raised e (vs1, t3)
         | Done t3 \<Rightarrow> Done (vs1 :: walk_vars, t3))))"
    subgoal for f0 pab fs vs1
      using od [of f0 pab fs]
      by (cases "split_aligned nc ip f0 pab (snd (downstream_piece (snd st))) fs
                (execute_so_far (fst (downstream_piece (snd st))))") simp_all
    done
  have ds: "\<And>pab fs. piece_inv P tr sl (queue_piece_swaps pab fs (snd st))"
    using a by (rule queue_piece_swaps_inv)
  show ?thesis
    unfolding trim_step_def Let_def
    using a cs od' ds
    by (simp add: case_prod_beta split: list.splits option.splits category.splits)
qed

lemma walk_inv:
  "piece_inv P tr sl (snd st) \<Longrightarrow>
   piece_inv P tr sl (snd (state_of (walk nc ip stps st)))"
proof (induction stps arbitrary: st)
  case Nil
  then show ?case by simp
next
  case (Cons stp stps)
  from trim_step_inv [OF Cons.prems, of nc ip stp]
  have i: "piece_inv P tr sl (snd (state_of (trim_step nc ip stp st)))" .
  show ?case
  proof (cases "trim_step nc ip stp st")
    case (Done st')
    with i Cons.IH [of st'] show ?thesis by simp
  next
    case (Raised e st')
    with i show ?thesis by simp
  qed
qed

lemma modify4new_slice_inv:
  "piece_inv P tr sl t \<Longrightarrow> piece_inv P tr sl (state_of (modify4new_slice nc ip stps t))"
  using walk_inv [of P tr sl "(\<lparr> seen_one_overlap = False, piece_at_border = None \<rparr>, t)" nc ip stps]
  by (cases "walk nc ip stps (\<lparr> seen_one_overlap = False, piece_at_border = None \<rparr>, t)")
     (simp_all add: modify4new_slice_def)

lemma init_inv: "piece_inv (pieces s) tr sl (TranscriptTrimmer_init tr sl s)"
  by (simp add: piece_inv_def TranscriptTrimmer_init_def)

text \<open>
  C9: a trimmer is built without a downstream piece. The first access to the property
  \<^verbatim>\<open>downstream_piece\<close> makes one new piece row of the trimmer's transcript, keeps its
  handle in the attribute and returns it; every later access returns that handle and
  makes nothing. In one run of a trimmer, of one transcript against one slice, whatever
  the steps are and whether the run ends normally or raises, either no piece has been
  made and the attribute is empty, or exactly one piece has been made, it is the last
  row of the pieces, and the attribute holds it.
\<close>

theorem C9_one_downstream_piece:
  "downstream_piece_attr (TranscriptTrimmer_init tr sl s) = None
   \<and> pieces (TranscriptTrimmer_init tr sl s) = pieces s
   \<and> (downstream_piece_attr t = None \<longrightarrow>
        downstream_piece t =
          (t \<lparr> pieces := pieces t @ [\<lparr> tp_super_locus = super_locus t,
                                         tp_transcribed = transcript t \<rparr>],
                handlers := handlers t @ [length (pieces t)],
                downstream_piece_attr := Some (length (pieces t)) \<rparr>,
           length (pieces t)))
   \<and> (downstream_piece_attr t = Some p \<longrightarrow> downstream_piece t = (t, p))
   \<and> downstream_piece (fst (downstream_piece t)) = (fst (downstream_piece t), snd (downstream_piece t))
   \<and> pieces (fst (downstream_piece (fst (downstream_piece t)))) = pieces (fst (downstream_piece t))
   \<and> ((downstream_piece_attr (state_of (modify4new_slice nc ip stps (TranscriptTrimmer_init tr sl s))) = None
        \<and> pieces (state_of (modify4new_slice nc ip stps (TranscriptTrimmer_init tr sl s))) = pieces s)
       \<or> (downstream_piece_attr (state_of (modify4new_slice nc ip stps (TranscriptTrimmer_init tr sl s)))
             = Some (length (pieces s))
           \<and> pieces (state_of (modify4new_slice nc ip stps (TranscriptTrimmer_init tr sl s)))
             = pieces s @ [\<lparr> tp_super_locus = sl, tp_transcribed = tr \<rparr>]))
   \<and> length (pieces (state_of (modify4new_slice nc ip stps (TranscriptTrimmer_init tr sl s))))
       \<le> Suc (length (pieces s))"
proof -
  let ?r = "state_of (modify4new_slice nc ip stps (TranscriptTrimmer_init tr sl s))"
  have inv: "piece_inv (pieces s) tr sl ?r"
    by (rule modify4new_slice_inv [OF init_inv])
  then have linked: "(downstream_piece_attr ?r = None \<and> pieces ?r = pieces s)
       \<or> (downstream_piece_attr ?r = Some (length (pieces s))
           \<and> pieces ?r = pieces s @ [\<lparr> tp_super_locus = sl, tp_transcribed = tr \<rparr>])"
    by (auto simp add: piece_inv_def)
  then have bound: "length (pieces ?r) \<le> Suc (length (pieces s))" by auto
  have i: "downstream_piece_attr (TranscriptTrimmer_init tr sl s) = None
           \<and> pieces (TranscriptTrimmer_init tr sl s) = pieces s"
    by (simp add: TranscriptTrimmer_init_def)
  have first: "downstream_piece_attr t = None \<longrightarrow>
        downstream_piece t =
          (t \<lparr> pieces := pieces t @ [\<lparr> tp_super_locus = super_locus t,
                                         tp_transcribed = transcript t \<rparr>],
                handlers := handlers t @ [length (pieces t)],
                downstream_piece_attr := Some (length (pieces t)) \<rparr>,
           length (pieces t))"
    by (simp add: downstream_piece_def mk_new_piece_def Let_def)
  have later: "downstream_piece_attr t = Some p \<longrightarrow> downstream_piece t = (t, p)"
    by (simp add: downstream_piece_def)
  have idem: "downstream_piece (fst (downstream_piece t))
                = (fst (downstream_piece t), snd (downstream_piece t))"
    by (simp add: downstream_piece_def mk_new_piece_def Let_def split: option.splits)
  then have same: "pieces (fst (downstream_piece (fst (downstream_piece t))))
                = pieces (fst (downstream_piece t))"
    by simp
  from i first later idem same linked bound show ?thesis by blast
qed

theorem C9_one_downstream_piece_witness:
  "snd (downstream_piece (TranscriptTrimmer_init 0 0 (store_of [mk_feature 1500 2500 True chr1 0]))) = 1
   \<and> pieces (fst (downstream_piece
        (TranscriptTrimmer_init 0 0 (store_of [mk_feature 1500 2500 True chr1 0]))))
      = [\<lparr> tp_super_locus = 0, tp_transcribed = 0 \<rparr>, \<lparr> tp_super_locus = 0, tp_transcribed = 0 \<rparr>]
   \<and> downstream_piece (fst (downstream_piece
        (TranscriptTrimmer_init 0 0 (store_of [mk_feature 1500 2500 True chr1 0]))))
      = (fst (downstream_piece
           (TranscriptTrimmer_init 0 0 (store_of [mk_feature 1500 2500 True chr1 0]))), 1)"
proof -
  let ?t = "TranscriptTrimmer_init 0 0 (store_of [mk_feature 1500 2500 True chr1 0])"
  have a: "downstream_piece_attr ?t = None" by (simp add: TranscriptTrimmer_init_def)
  have l: "length (pieces ?t) = 1" "super_locus ?t = 0" "transcript ?t = 0"
    "pieces ?t = [\<lparr> tp_super_locus = 0, tp_transcribed = 0 \<rparr>]"
    by (simp_all add: TranscriptTrimmer_init_def store_of_def)
  from C9_one_downstream_piece [of 0 0 "store_of [mk_feature 1500 2500 True chr1 0]" ?t 0 window True "[]"] a
  have d: "downstream_piece ?t =
          (?t \<lparr> pieces := pieces ?t @ [\<lparr> tp_super_locus = super_locus ?t,
                                         tp_transcribed = transcript ?t \<rparr>],
                handlers := handlers ?t @ [length (pieces ?t)],
                downstream_piece_attr := Some (length (pieces ?t)) \<rparr>,
           length (pieces ?t))"
    by blast
  have s1: "snd (downstream_piece ?t) = 1" unfolding d using l by simp
  have p1: "pieces (fst (downstream_piece ?t))
      = [\<lparr> tp_super_locus = 0, tp_transcribed = 0 \<rparr>, \<lparr> tp_super_locus = 0, tp_transcribed = 0 \<rparr>]"
    unfolding d using l by simp
  have b: "downstream_piece_attr (fst (downstream_piece ?t)) = Some 1"
    unfolding d using l by simp
  from C9_one_downstream_piece [of 0 0 "store_of [mk_feature 1500 2500 True chr1 0]" "fst (downstream_piece ?t)" 1
                 window True "[]"] b
  have e: "downstream_piece (fst (downstream_piece ?t)) = (fst (downstream_piece ?t), 1)"
    by blast
  from s1 p1 e show ?thesis by blast
qed

section \<open>The walk of modify4new_slice\<close>

lemmas sample_defs = chr1_def window_def mk_coords_def mk_feature_def store_of_def
  TranscriptTrimmer_init_def

lemma classify_not_None: "classify (mk_FeatureVsCoords f sc is_plus) \<noteq> None"
  using some_geometric_predicate [of "mk_FeatureVsCoords f sc is_plus"]
  unfolding classify_def by auto

lemma set_status_raised:
  "raised (set_status_downstream_border nc oc ip f np op t) \<noteq> Some NoFeaturesInSliceError"
  by (simp add: set_status_downstream_border_def new_handled_data_def swap_piece_def Let_def)

lemma split_aligned_raised:
  "raised (split_aligned nc ip f0 pab np fs t) \<noteq> Some NoFeaturesInSliceError"
proof (induction fs arbitrary: t)
  case Nil
  then show ?case by simp
next
  case (Cons f fs)
  show ?case
    using set_status_raised [of nc "coordinate (features t f0)" ip f np pab t] Cons.IH
    by (cases "set_status_downstream_border nc (coordinate (features t f0)) ip f np pab t")
       simp_all
qed

lemma trim_step_quiet:
  assumes "fst stp \<noteq> []" and "quiet nc ip (snd st) stp" and "piece_at_border (fst st) = None"
  shows "trim_step nc ip stp st = Done st"
proof -
  obtain f0 fs where l: "fst stp = f0 # fs" using assms(1) by (cases "fst stp") auto
  from assms(2) l classify_not_None [of "features (snd st) f0" nc ip] assms(3)
  show ?thesis
    unfolding trim_step_def quiet_def Let_def
    by (cases "classify (mk_FeatureVsCoords (features (snd st) f0) nc ip)")
       (auto split: category.splits)
qed

lemma trim_step_raised:
  "raised (trim_step nc ip stp st) \<noteq> Some NoFeaturesInSliceError"
proof -
  have od: "\<And>f0 pab np fs t2 vs1.
     raised (case split_aligned nc ip f0 pab np fs t2 of
               Raised e t3 \<Rightarrow> Raised e (vs1 :: walk_vars, t3)
             | Done t3 \<Rightarrow> Done (vs1, t3)) \<noteq> Some NoFeaturesInSliceError"
    subgoal for f0 pab np fs t2 vs1
      using split_aligned_raised [of nc ip f0 pab np fs t2]
      by (cases "split_aligned nc ip f0 pab np fs t2") simp_all
    done
  show ?thesis
    unfolding trim_step_def Let_def
    using od
    by (simp add: case_prod_beta split: list.splits option.splits category.splits)
qed

lemma trim_step_noisy:
  assumes "fst stp \<noteq> []" and "\<not> quiet nc ip (snd st) stp"
    and "trim_step nc ip stp st = Done st'"
  shows "seen_one_overlap (fst st')"
proof -
  obtain f0 fs where l: "fst stp = f0 # fs" using assms(1) by (cases "fst stp") auto
  from assms(2) l
  consider "classify (mk_FeatureVsCoords (features (snd st) f0) nc ip) = Some Contained"
    | "classify (mk_FeatureVsCoords (features (snd st) f0) nc ip) = Some OverlapsDownstream"
    unfolding quiet_def by auto
  then show ?thesis
  proof cases
    case 1
    with l assms(3) show ?thesis
      unfolding trim_step_def Let_def by auto
  next
    case 2
    with l assms(3) show ?thesis
      unfolding trim_step_def Let_def
      by (auto simp add: case_prod_beta split: result.splits)
  qed
qed

lemma trim_step_seen:
  assumes "seen_one_overlap (fst st)" and "trim_step nc ip stp st = Done st'"
  shows "seen_one_overlap (fst st')"
  using assms unfolding trim_step_def Let_def
  by (auto simp add: case_prod_beta split: list.splits option.splits category.splits
        result.splits if_splits)

lemma walk_seen:
  "seen_one_overlap (fst st) \<Longrightarrow> walk nc ip stps st = Done st' \<Longrightarrow> seen_one_overlap (fst st')"
proof (induction stps arbitrary: st)
  case Nil
  then show ?case by simp
next
  case (Cons stp stps)
  show ?case
  proof (cases "trim_step nc ip stp st")
    case (Done st1)
    from trim_step_seen [OF Cons.prems(1) Done] have "seen_one_overlap (fst st1)" .
    with Cons.IH [of st1] Cons.prems(2) Done show ?thesis by simp
  next
    case (Raised e st1)
    with Cons.prems(2) show ?thesis by simp
  qed
qed

lemma walk_raised:
  "raised (walk nc ip stps st) \<noteq> Some NoFeaturesInSliceError"
proof (induction stps arbitrary: st)
  case Nil
  then show ?case by simp
next
  case (Cons stp stps)
  show ?case
    using trim_step_raised [of nc ip stp st] Cons.IH
    by (cases "trim_step nc ip stp st") simp_all
qed

lemma walk_unseen:
  assumes "\<forall>stp \<in> set stps. fst stp \<noteq> []"
    and "\<not> seen_one_overlap (fst st)" and "piece_at_border (fst st) = None"
  shows "(\<exists>st'. walk nc ip stps st = Done st' \<and> \<not> seen_one_overlap (fst st'))
         \<longleftrightarrow> (\<forall>stp \<in> set stps. quiet nc ip (snd st) stp)"
    and "\<forall>stp \<in> set stps. quiet nc ip (snd st) stp \<Longrightarrow> walk nc ip stps st = Done st"
  using assms
proof (induction stps)
  case Nil
  { case 1 then show ?case by simp }
  { case 2 then show ?case by simp }
next
  case (Cons stp stps)
  { case 1
    have ne: "fst stp \<noteq> []" and nes: "\<forall>x \<in> set stps. fst x \<noteq> []" using 1(1) by auto
    show ?case
    proof (cases "quiet nc ip (snd st) stp")
      case True
      have "trim_step nc ip stp st = Done st"
        using ne True 1(3) by (rule trim_step_quiet)
      then show ?thesis
        using Cons.IH(1) [OF nes 1(2) 1(3)] True by simp
    next
      case False
      have "\<not> (\<exists>st'. walk nc ip (stp # stps) st = Done st' \<and> \<not> seen_one_overlap (fst st'))"
      proof (cases "trim_step nc ip stp st")
        case (Done st1)
        from trim_step_noisy [OF ne False Done] have "seen_one_overlap (fst st1)" .
        then show ?thesis using Done walk_seen [of st1 nc ip stps] by auto
      next
        case (Raised e st1)
        then show ?thesis by simp
      qed
      with False show ?thesis by auto
    qed }
  { case 2
    have ne: "fst stp \<noteq> []" and nes: "\<forall>x \<in> set stps. fst x \<noteq> []" using 2(2) by auto
    have q: "quiet nc ip (snd st) stp" and qs: "\<forall>x \<in> set stps. quiet nc ip (snd st) x"
      using 2(1) by auto
    have "trim_step nc ip stp st = Done st"
      using ne q 2(4) by (rule trim_step_quiet)
    then show ?case using Cons.IH(2) [OF qs nes 2(3) 2(4)] by simp }
qed

text \<open>
  C3: for steps that each hold at least one feature, \<^verbatim>\<open>modify4new_slice\<close> raises
  \<^verbatim>\<open>NoFeaturesInSliceError\<close> if and only if no step of the walk is classified as
  Contained or as OverlapsDownstream. When it does raise it, it has changed nothing.
\<close>

theorem C3_no_features_iff:
  assumes "\<forall>stp \<in> set stps. fst stp \<noteq> []"
  shows "(raised (modify4new_slice new_coords is_plus stps t) = Some NoFeaturesInSliceError
          \<longleftrightarrow> (\<forall>stp \<in> set stps.
                 classify (mk_FeatureVsCoords (features t (hd (fst stp))) new_coords is_plus)
                   \<noteq> Some Contained
                 \<and> classify (mk_FeatureVsCoords (features t (hd (fst stp))) new_coords is_plus)
                   \<noteq> Some OverlapsDownstream))
       \<and> (raised (modify4new_slice new_coords is_plus stps t) = Some NoFeaturesInSliceError
          \<longrightarrow> modify4new_slice new_coords is_plus stps t = Raised NoFeaturesInSliceError t)"
proof -
  let ?st = "(\<lparr> seen_one_overlap = False, piece_at_border = None \<rparr>, t)"
  have u: "(\<exists>st'. walk new_coords is_plus stps ?st = Done st' \<and> \<not> seen_one_overlap (fst st'))
         \<longleftrightarrow> (\<forall>stp \<in> set stps. quiet new_coords is_plus t stp)"
    using walk_unseen(1) [OF assms, where st = ?st and nc = new_coords and ip = is_plus] by simp
  have d: "\<forall>stp \<in> set stps. quiet new_coords is_plus t stp \<Longrightarrow>
             walk new_coords is_plus stps ?st = Done ?st"
    using walk_unseen(2) [where stps = stps and st = ?st and nc = new_coords and ip = is_plus] assms by simp
  have r: "raised (modify4new_slice new_coords is_plus stps t) = Some NoFeaturesInSliceError
        \<longleftrightarrow> (\<exists>st'. walk new_coords is_plus stps ?st = Done st' \<and> \<not> seen_one_overlap (fst st'))"
    using walk_raised [of new_coords is_plus stps ?st]
    by (cases "walk new_coords is_plus stps ?st") (auto simp add: modify4new_slice_def)
  have a: "raised (modify4new_slice new_coords is_plus stps t) = Some NoFeaturesInSliceError
          \<longleftrightarrow> (\<forall>stp \<in> set stps. quiet new_coords is_plus t stp)"
    using r u by simp
  have b: "raised (modify4new_slice new_coords is_plus stps t) = Some NoFeaturesInSliceError
          \<longrightarrow> modify4new_slice new_coords is_plus stps t = Raised NoFeaturesInSliceError t"
    using a d by (auto simp add: modify4new_slice_def)
  from a b show ?thesis unfolding quiet_def by blast
qed

theorem C3_no_features_iff_witness:
  "fst ([0 :: nat], 0 :: nat) \<noteq> []
   \<and> modify4new_slice window True [([0], 0)]
        (TranscriptTrimmer_init 0 0 (store_of [mk_feature 0 500 True chr1 0]))
       = Raised NoFeaturesInSliceError
           (TranscriptTrimmer_init 0 0 (store_of [mk_feature 0 500 True chr1 0]))
   \<and> raised (modify4new_slice window True [([0], 0)]
        (TranscriptTrimmer_init 0 0 (store_of [mk_feature 1200 1500 True chr1 0])))
       \<noteq> Some NoFeaturesInSliceError"
proof -
  let ?stps = "[([0 :: nat], 0 :: nat)]"
  let ?t = "TranscriptTrimmer_init 0 0 (store_of [mk_feature 0 500 True chr1 0])"
  let ?u = "TranscriptTrimmer_init 0 0 (store_of [mk_feature 1200 1500 True chr1 0])"
  have ne: "\<forall>stp \<in> set ?stps. fst stp \<noteq> []" by simp
  have up: "classify (mk_FeatureVsCoords (features ?t 0) window True) = Some Upstream"
    by (simp add: classify_def classifier_defs sample_defs)
  have co: "classify (mk_FeatureVsCoords (features ?u 0) window True) = Some Contained"
    by (simp add: classify_def classifier_defs sample_defs)
  from C3_no_features_iff [OF ne, of window True ?t] up
  have a: "modify4new_slice window True ?stps ?t = Raised NoFeaturesInSliceError ?t"
    by simp
  from C3_no_features_iff [OF ne, of window True ?u] co
  have b: "raised (modify4new_slice window True ?stps ?u) \<noteq> Some NoFeaturesInSliceError"
    by simp
  from a b show ?thesis by simp
qed

section \<open>The split at the downstream border\<close>






section \<open>The double check of modify4slice\<close>

lemma trim_step_unseen_same:
  assumes "trim_step nc ip stp st = Done st'" and "\<not> seen_one_overlap (fst st')"
    and "piece_at_border (fst st) = None"
  shows "st' = st"
  using assms unfolding trim_step_def Let_def
  by (auto simp add: case_prod_beta split: list.splits option.splits category.splits
        result.splits)

lemma walk_unseen_same:
  assumes "walk nc ip stps st = Done st'" and "\<not> seen_one_overlap (fst st')"
    and "piece_at_border (fst st) = None"
  shows "st' = st"
  using assms
proof (induction stps arbitrary: st)
  case Nil
  then show ?case by simp
next
  case (Cons stp stps)
  show ?case
  proof (cases "trim_step nc ip stp st")
    case (Done st1)
    with Cons.prems(1) have w: "walk nc ip stps st1 = Done st'" by simp
    have "\<not> seen_one_overlap (fst st1)"
      using walk_seen [OF _ w] Cons.prems(2) by blast
    from trim_step_unseen_same [OF Done this Cons.prems(3)] have "st1 = st" .
    with Cons.IH [OF _ Cons.prems(2) Cons.prems(3)] w show ?thesis by simp
  next
    case (Raised e st1)
    with Cons.prems(1) show ?thesis by simp
  qed
qed

lemma no_features_same:
  assumes "raised (modify4new_slice nc ip stps t) = Some NoFeaturesInSliceError"
  shows "modify4new_slice nc ip stps t = Raised NoFeaturesInSliceError t"
proof (cases "walk nc ip stps (\<lparr> seen_one_overlap = False, piece_at_border = None \<rparr>, t)")
  case (Done st')
  with assms have u: "\<not> seen_one_overlap (fst st')"
    by (auto simp add: modify4new_slice_def split: if_splits)
  from walk_unseen_same [OF Done u] have "st' = (\<lparr> seen_one_overlap = False, piece_at_border = None \<rparr>, t)"
    by simp
  with Done show ?thesis by (simp add: modify4new_slice_def)
next
  case (Raised e st')
  with assms walk_raised [of nc ip stps "(\<lparr> seen_one_overlap = False, piece_at_border = None \<rparr>, t)"]
  show ?thesis by (simp add: modify4new_slice_def)
qed

lemma shared_state_init: "shared_state (TranscriptTrimmer_init tr sl s) = s"
  by (simp add: shared_state_def TranscriptTrimmer_init_def)

lemma double_check_iff:
  "double_check nc ip tr s = None \<longleftrightarrow>
     (\<forall>p \<in> set (pieces_of_transcribed s tr). \<forall>h \<in> set (features_of_piece s p).
        is_plus_strand (features s h) = ip \<longrightarrow>
        \<not> (if ip then c_start nc \<le> position (features s h) \<and> position (features s h) \<le> c_end nc
            else c_start nc - 1 \<le> position (features s h)
                 \<and> position (features s h) \<le> c_end nc - 1))"
  by (auto simp add: double_check_def assert_not_in_slice_def list_all_iff)

lemma double_check_error:
  "double_check nc ip tr s = Some e \<Longrightarrow> e = AssertionError"
  by (simp add: double_check_def split: if_splits)

lemmas walk_eval =
  modify4new_slice_def trim_step_def classify_def classifier_defs Let_def

lemmas double_check_eval =
  double_check_def assert_not_in_slice_def pieces_of_transcribed_def features_of_piece_def
  shared_state_def

text \<open>
  C7 (as stated): after \<^verbatim>\<open>NoFeaturesInSliceError\<close> the caller asserts that no feature of
  the transcript on the matching strand falls inside \<open>[start, end)\<close>, and the error is
  resolved when there is none. This fails: the plus-strand feature \<open>[2000, 2500)\<close> with
  position 2000 lies outside the window \<open>[1000, 2000)\<close>, the trimmer raises
  \<^verbatim>\<open>NoFeaturesInSliceError\<close>, and the assertion fails all the same.
\<close>

theorem C7_edge_counterexample:
  "raised (modify4new_slice window True [([0], 0)]
             (TranscriptTrimmer_init 0 0 (store_of [mk_feature 2000 2500 True chr1 0])))
     = Some NoFeaturesInSliceError
   \<and> modify4slice 0 window True [(0, [([0], 0)])] (store_of [mk_feature 2000 2500 True chr1 0])
     = Raised AssertionError (store_of [mk_feature 2000 2500 True chr1 0])
   \<and> \<not> (c_start window \<le> position (mk_feature 2000 2500 True chr1 0)
          \<and> position (mk_feature 2000 2500 True chr1 0) < c_end window)
   \<and> \<not> (f_start (mk_feature 2000 2500 True chr1 0) < c_end window
          \<and> c_start window < f_end (mk_feature 2000 2500 True chr1 0))"
  by (simp add: walk_eval double_check_eval sample_defs)

text \<open>
  C7 (amended): when \<^verbatim>\<open>modify4new_slice\<close> raises \<^verbatim>\<open>NoFeaturesInSliceError\<close> for a
  transcript, \<^verbatim>\<open>modify4slice\<close> looks at every feature of every piece of that transcript
  and, for those on the strand of the pass, asserts that \<^verbatim>\<open>position\<close> is outside the
  closed range \<open>[start, end]\<close> on the plus strand and outside \<open>[start - 1, end - 1]\<close> on
  the minus strand. If all assertions hold, the error is resolved and the loop goes on
  with the next transcript; otherwise the run ends with \<^verbatim>\<open>AssertionError\<close>. The store is
  unchanged in both cases.
\<close>

theorem C7_double_check:
  assumes "raised (modify4new_slice nc ip stps (TranscriptTrimmer_init tr sl s))
             = Some NoFeaturesInSliceError"
  shows "modify4slice sl nc ip ((tr, stps) # trs) s =
     (if (\<forall>p \<in> set (pieces_of_transcribed s tr). \<forall>h \<in> set (features_of_piece s p).
            is_plus_strand (features s h) = ip \<longrightarrow>
            \<not> (if ip
                then c_start nc \<le> position (features s h) \<and> position (features s h) \<le> c_end nc
                else c_start nc - 1 \<le> position (features s h)
                     \<and> position (features s h) \<le> c_end nc - 1))
      then modify4slice sl nc ip trs s
      else Raised AssertionError s)"
proof -
  let ?ok = "\<forall>p \<in> set (pieces_of_transcribed s tr). \<forall>h \<in> set (features_of_piece s p).
            is_plus_strand (features s h) = ip \<longrightarrow>
            \<not> (if ip
                then c_start nc \<le> position (features s h) \<and> position (features s h) \<le> c_end nc
                else c_start nc - 1 \<le> position (features s h)
                     \<and> position (features s h) \<le> c_end nc - 1)"
  have m: "modify4new_slice nc ip stps (TranscriptTrimmer_init tr sl s)
             = Raised NoFeaturesInSliceError (TranscriptTrimmer_init tr sl s)"
    using assms by (rule no_features_same)
  have step: "modify4slice sl nc ip ((tr, stps) # trs) s =
      (case double_check nc ip tr s of
         None \<Rightarrow> modify4slice sl nc ip trs s
       | Some e' \<Rightarrow> Raised e' s)"
    by (simp add: m shared_state_init split: option.splits)
  have dc: "double_check nc ip tr s = None \<longleftrightarrow> ?ok"
    by (rule double_check_iff)
  show ?thesis
  proof (cases ?ok)
    case True
    then have "double_check nc ip tr s = None" using dc by blast
    then have h: "modify4slice sl nc ip ((tr, stps) # trs) s = modify4slice sl nc ip trs s"
      using step by simp
    show ?thesis by (simp only: if_P [OF True] h)
  next
    case False
    then have "double_check nc ip tr s \<noteq> None" using dc by blast
    then obtain e where e: "double_check nc ip tr s = Some e" by auto
    then have "e = AssertionError" by (rule double_check_error)
    with e have h: "modify4slice sl nc ip ((tr, stps) # trs) s = Raised AssertionError s"
      using step by simp
    show ?thesis by (simp only: if_not_P [OF False] h)
  qed
qed

theorem C7_double_check_witness:
  "raised (modify4new_slice (mk_coords 2 ''chr1'' 5000 6000) True [([0], 0)]
             (TranscriptTrimmer_init 0 0 (store_of [mk_feature 0 500 True chr1 0])))
     = Some NoFeaturesInSliceError
   \<and> modify4slice 0 (mk_coords 2 ''chr1'' 5000 6000) True [(0, [([0], 0)])]
        (store_of [mk_feature 0 500 True chr1 0])
     = Done (store_of [mk_feature 0 500 True chr1 0])
   \<and> modify4slice 0 (mk_coords 2 ''chr1'' 5000 6000) True [(0, [([0], 0)])]
        (store_of [mk_feature 6000 6500 True chr1 0])
     = Raised AssertionError (store_of [mk_feature 6000 6500 True chr1 0])"
proof -
  let ?w = "mk_coords 2 ''chr1'' 5000 6000"
  let ?s = "store_of [mk_feature 0 500 True chr1 0]"
  let ?u = "store_of [mk_feature 6000 6500 True chr1 0]"
  have a: "raised (modify4new_slice ?w True [([0], 0)] (TranscriptTrimmer_init 0 0 ?s))
             = Some NoFeaturesInSliceError"
    by (simp add: walk_eval sample_defs)
  have b: "raised (modify4new_slice ?w True [([0], 0)] (TranscriptTrimmer_init 0 0 ?u))
             = Some NoFeaturesInSliceError"
    by (simp add: walk_eval sample_defs)
  from C7_double_check [OF a, of "[]"]
  have c: "modify4slice 0 ?w True [(0, [([0], 0)])] ?s = Done ?s"
    by (simp add: pieces_of_transcribed_def features_of_piece_def sample_defs)
  from C7_double_check [OF b, of "[]"]
  have d: "modify4slice 0 ?w True [(0, [([0], 0)])] ?u = Raised AssertionError ?u"
    by (simp add: pieces_of_transcribed_def features_of_piece_def sample_defs)
  from a c d show ?thesis by simp
qed

section \<open>A second crossing of the downstream border\<close>

lemma fold_coord_swap_pieces:
  "transcribed_pieces (fold (apply_coord_swap rows) sws fs h) = transcribed_pieces (fs h)"
  by (induction sws arbitrary: fs) (simp_all add: apply_coord_swap_def)

lemma execute_so_far_no_piece_swaps:
  assumes "piece_swaps t = []"
  shows "transcribed_pieces (features (execute_so_far t) h) = transcribed_pieces (features t h)"
    and "n_features (execute_so_far t) = n_features t"
  using assms by (simp_all add: execute_so_far_def Let_def fold_coord_swap_pieces)

lemma execute_so_far_trimmer:
  "pieces (execute_so_far t) = pieces t"
  "downstream_piece_attr (execute_so_far t) = downstream_piece_attr t"
  by (simp_all add: execute_so_far_def Let_def)

lemma set_status_ok:
  assumes "pab \<in> set (transcribed_pieces (features t f))" and "f < n_features t"
  shows "\<exists>t'. set_status_downstream_border nc oc ip f np pab t = Done t'
     \<and> n_features t' = Suc (n_features t)
     \<and> pieces t' = pieces t
     \<and> downstream_piece_attr t' = downstream_piece_attr t
     \<and> (\<forall>h < n_features t. transcribed_pieces (features t' h) = transcribed_pieces (features t h))
     \<and> f_end (features t' f) = down_at nc ip
     \<and> \<not> end_is_biological_end (features t' f)
     \<and> (\<forall>h < n_features t. h \<noteq> f \<longrightarrow>
           f_end (features t' h) = f_end (features t h)
           \<and> end_is_biological_end (features t' h) = end_is_biological_end (features t h))"
  using assms
  by (auto simp add: set_status_downstream_border_def new_handled_data_def
        load_to_intervaltree_def swap_piece_def Let_def)

lemma split_aligned_ok:
  assumes "\<forall>f \<in> set fs. f < n_features t \<and> pab \<in> set (transcribed_pieces (features t f))"
  shows "\<exists>t'. split_aligned nc ip f0 pab np fs t = Done t'
     \<and> n_features t' = n_features t + length fs
     \<and> pieces t' = pieces t
     \<and> downstream_piece_attr t' = downstream_piece_attr t
     \<and> (\<forall>f \<in> set fs. f_end (features t' f) = down_at nc ip
                        \<and> \<not> end_is_biological_end (features t' f))
     \<and> (\<forall>h < n_features t. h \<notin> set fs \<longrightarrow>
           f_end (features t' h) = f_end (features t h)
           \<and> end_is_biological_end (features t' h) = end_is_biological_end (features t h))"
  using assms
proof (induction fs arbitrary: t)
  case Nil
  then show ?case by simp
next
  case (Cons f fs)
  have pf: "pab \<in> set (transcribed_pieces (features t f))" and lf: "f < n_features t"
    using Cons.prems by auto
  from set_status_ok [OF pf lf, of nc "coordinate (features t f0)" ip np]
  obtain t1 where s1: "set_status_downstream_border nc (coordinate (features t f0)) ip f np pab t = Done t1"
    and n1: "n_features t1 = Suc (n_features t)"
    and p1: "pieces t1 = pieces t"
    and a1: "downstream_piece_attr t1 = downstream_piece_attr t"
    and tp1: "\<forall>h < n_features t. transcribed_pieces (features t1 h) = transcribed_pieces (features t h)"
    and e1: "f_end (features t1 f) = down_at nc ip" "\<not> end_is_biological_end (features t1 f)"
    and o1: "\<forall>h < n_features t. h \<noteq> f \<longrightarrow>
           f_end (features t1 h) = f_end (features t h)
           \<and> end_is_biological_end (features t1 h) = end_is_biological_end (features t h)"
    by blast
  have pre: "\<forall>g \<in> set fs. g < n_features t1 \<and> pab \<in> set (transcribed_pieces (features t1 g))"
    using Cons.prems n1 tp1 by auto
  from Cons.IH [OF pre]
  obtain t' where s2: "split_aligned nc ip f0 pab np fs t1 = Done t'"
    and n2: "n_features t' = n_features t1 + length fs"
    and p2: "pieces t' = pieces t1"
    and a2: "downstream_piece_attr t' = downstream_piece_attr t1"
    and e2: "\<forall>g \<in> set fs. f_end (features t' g) = down_at nc ip
                        \<and> \<not> end_is_biological_end (features t' g)"
    and o2: "\<forall>h < n_features t1. h \<notin> set fs \<longrightarrow>
           f_end (features t' h) = f_end (features t1 h)
           \<and> end_is_biological_end (features t' h) = end_is_biological_end (features t1 h)"
    by blast
  have r: "split_aligned nc ip f0 pab np (f # fs) t = Done t'"
    using s1 s2 by simp
  have ef: "f_end (features t' f) = down_at nc ip \<and> \<not> end_is_biological_end (features t' f)"
  proof (cases "f \<in> set fs")
    case True
    then show ?thesis using e2 by blast
  next
    case False
    have "f < n_features t1" using lf n1 by simp
    with o2 False e1 show ?thesis by simp
  qed
  have oth: "\<forall>h < n_features t. h \<notin> set (f # fs) \<longrightarrow>
           f_end (features t' h) = f_end (features t h)
           \<and> end_is_biological_end (features t' h) = end_is_biological_end (features t h)"
  proof (intro allI impI)
    fix h assume h: "h < n_features t" and nh: "h \<notin> set (f # fs)"
    then have "h < n_features t1" "h \<notin> set fs" "h \<noteq> f" using n1 by auto
    with o1 o2 h
    show "f_end (features t' h) = f_end (features t h)
           \<and> end_is_biological_end (features t' h) = end_is_biological_end (features t h)"
      by simp
  qed
  show ?case
    using r n1 n2 p1 p2 a1 a2 e2 ef oth by simp
qed

lemmas split_eval =
  set_status_downstream_border_def new_handled_data_def load_to_intervaltree_def
  swap_piece_def downstream_piece_def mk_new_piece_def execute_so_far_def down_at_def
  tree_add_def

text \<open>
  C4 (as stated): a second step classified as OverlapsDownstream makes the run fail
  instead of splitting again. This fails: for the features \<open>[1200, 2500)\<close> and
  \<open>[1500, 2500)\<close> against the window \<open>[1000, 2000)\<close> on the plus strand both steps are
  classified as OverlapsDownstream, the run ends normally, and both features are split.
\<close>

theorem C4_two_splits:
  "classify (mk_FeatureVsCoords (features two_crossing 0) window True) = Some OverlapsDownstream
   \<and> trim_step window True ([0], 0)
         (\<lparr> seen_one_overlap = False, piece_at_border = None \<rparr>, two_crossing)
       = Done (\<lparr> seen_one_overlap = True, piece_at_border = Some 0 \<rparr>, after_first_split)
   \<and> classify (mk_FeatureVsCoords (features after_first_split 1) window True)
       = Some OverlapsDownstream
   \<and> raised (modify4new_slice window True [([0], 0), ([1], 0)] two_crossing) = None
   \<and> n_features (state_of (modify4new_slice window True [([0], 0), ([1], 0)] two_crossing)) = 4
   \<and> f_end (features (state_of (modify4new_slice window True [([0], 0), ([1], 0)] two_crossing)) 0)
       = 2000
   \<and> f_end (features (state_of (modify4new_slice window True [([0], 0), ([1], 0)] two_crossing)) 1)
       = 2000
   \<and> f_start (features (state_of (modify4new_slice window True [([0], 0), ([1], 0)] two_crossing)) 2)
       = 2000
   \<and> f_start (features (state_of (modify4new_slice window True [([0], 0), ([1], 0)] two_crossing)) 3)
       = 2000"
  unfolding after_first_split_def
  by (simp add: two_crossing_def walk_eval split_eval sample_defs)

text \<open>
  C4 (amended): a step classified as OverlapsDownstream that comes after a border split
  of the same run is treated as the first one was. With the downstream piece already
  made, no piece swap waiting in the queue, and every aligned feature an existing feature
  linked to the piece at the border, the step ends normally: it splits each aligned
  feature, making one new feature for each, makes no further piece and keeps the
  downstream piece.
\<close>

theorem C4_second_split:
  assumes "classify (mk_FeatureVsCoords (features t f0) new_coords is_plus) = Some OverlapsDownstream"
    and "downstream_piece_attr t = Some p"
    and "piece_swaps t = []"
    and "\<forall>f \<in> set (f0 # fs). f < n_features t
           \<and> transcribed_piece (features t f0) \<in> set (transcribed_pieces (features t f))"
  shows "\<exists>t'. trim_step new_coords is_plus (f0 # fs, piece) (vs, t) =
              Done (vs \<lparr> seen_one_overlap := True,
                         piece_at_border := Some (transcribed_piece (features t f0)) \<rparr>, t')
     \<and> n_features t' = n_features t + length (f0 # fs)
     \<and> pieces t' = pieces t
     \<and> downstream_piece_attr t' = Some p
     \<and> (\<forall>f \<in> set (f0 # fs). f_end (features t' f) = down_at new_coords is_plus
                               \<and> \<not> end_is_biological_end (features t' f))"
proof -
  let ?pab = "transcribed_piece (features t f0)"
  let ?t2 = "execute_so_far t"
  have dp: "downstream_piece t = (t, p)"
    using assms(2) by (simp add: downstream_piece_def)
  have pre: "\<forall>f \<in> set (f0 # fs). f < n_features ?t2
               \<and> ?pab \<in> set (transcribed_pieces (features ?t2 f))"
    using assms(4) execute_so_far_no_piece_swaps [OF assms(3)] by simp
  from split_aligned_ok [OF pre, of new_coords is_plus f0 p]
  obtain t' where s: "split_aligned new_coords is_plus f0 ?pab p (f0 # fs) ?t2 = Done t'"
    and n: "n_features t' = n_features ?t2 + length (f0 # fs)"
    and ps: "pieces t' = pieces ?t2"
    and a: "downstream_piece_attr t' = downstream_piece_attr ?t2"
    and e: "\<forall>f \<in> set (f0 # fs). f_end (features t' f) = down_at new_coords is_plus
                               \<and> \<not> end_is_biological_end (features t' f)"
    by blast
  have r: "trim_step new_coords is_plus (f0 # fs, piece) (vs, t) =
              Done (vs \<lparr> seen_one_overlap := True, piece_at_border := Some ?pab \<rparr>, t')"
    unfolding trim_step_def Let_def using assms(1) dp s by simp
  show ?thesis
    using r n ps a e assms(2) execute_so_far_no_piece_swaps(2) [OF assms(3)]
      execute_so_far_trimmer [of t]
    by simp
qed

theorem C4_second_split_witness:
  "classify (mk_FeatureVsCoords (features after_first_split 1) window True)
     = Some OverlapsDownstream
   \<and> downstream_piece_attr after_first_split = Some 1
   \<and> piece_swaps after_first_split = []
   \<and> raised (trim_step window True ([1], 0)
        (\<lparr> seen_one_overlap = True, piece_at_border = Some 0 \<rparr>, after_first_split)) = None
   \<and> n_features (snd (state_of (trim_step window True ([1], 0)
        (\<lparr> seen_one_overlap = True, piece_at_border = Some 0 \<rparr>, after_first_split)))) = 4
   \<and> f_end (features (snd (state_of (trim_step window True ([1], 0)
        (\<lparr> seen_one_overlap = True, piece_at_border = Some 0 \<rparr>, after_first_split)))) 1) = 2000"
proof -
  let ?vs = "\<lparr> seen_one_overlap = True, piece_at_border = Some 0 \<rparr>"
  have a: "classify (mk_FeatureVsCoords (features after_first_split 1) window True)
             = Some OverlapsDownstream"
    and b: "downstream_piece_attr after_first_split = Some 1"
    and c: "piece_swaps after_first_split = []"
    and n: "n_features after_first_split = 3"
    unfolding after_first_split_def
    by (simp_all add: two_crossing_def walk_eval split_eval sample_defs)
  have d: "\<forall>f \<in> set (1 # []). f < n_features after_first_split
             \<and> transcribed_piece (features after_first_split 1)
                 \<in> set (transcribed_pieces (features after_first_split f))"
    unfolding after_first_split_def
    by (simp add: two_crossing_def walk_eval split_eval sample_defs)
  from C4_second_split [OF a b c d, of 0 ?vs]
  obtain t' where r: "trim_step window True ([1], 0) (?vs, after_first_split)
          = Done (?vs \<lparr> seen_one_overlap := True,
                         piece_at_border := Some (transcribed_piece (features after_first_split 1)) \<rparr>, t')"
    and m: "n_features t' = n_features after_first_split + length [1 :: nat]"
    and e: "\<forall>f \<in> set [1]. f_end (features t' f) = down_at window True
                               \<and> \<not> end_is_biological_end (features t' f)"
    by blast
  have da: "down_at window True = 2000" by (simp add: down_at_def sample_defs)
  show ?thesis using a b c r m e n da by simp
qed

end
